theory Spec2Isabelle
  imports Complex_Main
begin

section \<open>Strings and regular expressions of the report generator\<close>

text \<open>
  JavaScript strings are modelled as \<open>string\<close> (lists of 8-bit characters, read as the
  code points below 256). Numbers are IEEE doubles, modelled below by their exact rational
  values with every operation rounded; counters that the code only increments by one
  (\<open>responseCount\<close>, the denominators of the scorer) are \<open>nat\<close>, which is exact as long
  as they stay below \<open>2^53\<close>, and neither the sign of zero nor the special enumeration
  order of integer-like property names is modelled. Objects used as dictionaries are
  association lists of their own properties in insertion order; the properties they
  inherit from \<open>Object.prototype\<close> are modelled where the code reads or assigns a property
  under a name taken from the data.
\<close>

definition is_digit :: "char \<Rightarrow> bool" where
  "is_digit c = (c \<in> set ''0123456789'')"

definition is_space :: "char \<Rightarrow> bool" where
  \<comment> \<open>the characters below 256 that \<open>\s\<close>, \<open>trim\<close> and \<open>parseInt\<close> treat as white space\<close>
  "is_space c = (c \<in> set [CHR 0x09, CHR 0x0A, CHR 0x0B, CHR 0x0C, CHR 0x0D, CHR 0x20, CHR 0xA0])"

definition digit_val :: "char \<Rightarrow> int" where
  "digit_val c = of_char c - 48"

definition lower :: "char \<Rightarrow> char" where
  \<comment> \<open>case folding of the \<open>i\<close> flag on the letters of the pattern (ASCII only)\<close>
  "lower c = (if 65 \<le> (of_char c :: nat) \<and> (of_char c :: nat) \<le> 90
              then char_of ((of_char c :: nat) + 32) else c)"

definition trim :: "string \<Rightarrow> string" where
  "trim s = rev (dropWhile is_space (rev (dropWhile is_space s)))"

definition startsWith :: "string \<Rightarrow> string \<Rightarrow> bool" where
  "startsWith s p = (take (length p) s = p)"

definition includes_char :: "string \<Rightarrow> char \<Rightarrow> bool" where
  "includes_char s c = (c \<in> set s)"

fun split_on :: "char \<Rightarrow> string \<Rightarrow> string list" where
  "split_on d [] = [ [] ]"
| "split_on d (c # cs) =
     (if c = d then [] # split_on d cs
      else (case split_on d cs of [] \<Rightarrow> [ [c] ] | x # xs \<Rightarrow> (c # x) # xs))"

definition dec_val :: "string \<Rightarrow> int" where
  "dec_val ds = foldl (\<lambda>n c. 10 * n + digit_val c) 0 ds"

definition is_hex :: "char \<Rightarrow> bool" where
  "is_hex c = (c \<in> set ''0123456789abcdefABCDEF'')"

definition hex_digit_val :: "char \<Rightarrow> int" where
  "hex_digit_val c = (if is_digit c then of_char c - 48
                      else if c \<in> set ''abcdef'' then of_char c - 87 else of_char c - 55)"

definition hex_val :: "string \<Rightarrow> int" where
  "hex_val ds = foldl (\<lambda>n c. 16 * n + hex_digit_val c) 0 ds"

definition parseInt_math :: "string \<Rightarrow> int option" where
  \<comment> \<open>the mathematical integer that \<open>parseInt(s)\<close> reads, without radix: white space, a
      sign, a \<open>0x\<close> prefix, then the longest run of digits; \<open>None\<close> when there is none\<close>
  "parseInt_math s =
     (let s1 = dropWhile is_space s;
          sgn = (case s1 of c # r \<Rightarrow> if c = CHR ''-'' then (-1::int) else 1 | [] \<Rightarrow> 1);
          s2 = (case s1 of c # r \<Rightarrow> if c = CHR ''-'' \<or> c = CHR ''+'' then r else s1 | [] \<Rightarrow> s1)
      in if map lower (take 2 s2) = ''0x''
         then (let hs = takeWhile is_hex (drop 2 s2)
               in if hs = [] then None else Some (sgn * hex_val hs))
         else (let ds = takeWhile is_digit s2
               in if ds = [] then None else Some (sgn * dec_val ds)))"

definition match_at :: "string \<Rightarrow> string option" where
  \<comment> \<open>\<open>(\d+)\s*stars?\<close> with flag \<open>i\<close>, tried at the start of \<open>s\<close>: the captured digits\<close>
  "match_at s =
     (let ds = takeWhile is_digit s; r = dropWhile is_space (dropWhile is_digit s)
      in if ds \<noteq> [] \<and> map lower (take 4 r) = ''star'' then Some ds else None)"

fun starMatch :: "string \<Rightarrow> string option" where
  \<comment> \<open>\<open>answer.match(/(\d+)\s*stars?/i)\<close>: group 1 of the leftmost match, \<open>None\<close> for \<open>null\<close>\<close>
  "starMatch [] = None"
| "starMatch (c # cs) =
     (case match_at (c # cs) of Some ds \<Rightarrow> Some ds | None \<Rightarrow> starMatch cs)"

definition starPattern_test :: "string \<Rightarrow> bool" where
  \<comment> \<open>\<open>/^\d+\s*stars?$/i.test(s)\<close>\<close>
  "starPattern_test s =
     (let ds = takeWhile is_digit s; r = dropWhile is_space (dropWhile is_digit s)
      in ds \<noteq> [] \<and> (map lower r = ''star'' \<or> map lower r = ''stars''))"

section \<open>Numbers\<close>

text \<open>
  A number is a finite double, given by its exact value, an infinity or \<open>NaN\<close>. \<open>fl\<close>
  rounds a rational to the nearest double, ties to even, with gradual underflow and
  overflow to infinity; every arithmetic operation of the code is the exact operation
  followed by \<open>fl\<close>.
\<close>

datatype jsnum = Fin rat | PInf | NInf | NaN

function bits :: "int \<Rightarrow> nat" where
  \<comment> \<open>the length of the binary numeral of a positive integer\<close>
  "bits n = (if n \<le> 0 then 0 else Suc (bits (n div 2)))"
  by auto
termination
  by (relation "measure nat") auto

declare bits.simps [simp del]

definition pow2 :: "int \<Rightarrow> rat" where
  "pow2 e = (if 0 \<le> e then 2 ^ nat e else 1 / 2 ^ nat (- e))"

definition ilog2 :: "rat \<Rightarrow> int" where
  \<comment> \<open>the binary exponent of a positive rational: \<open>2^e \<le> a < 2^(e+1)\<close>\<close>
  "ilog2 a =
     (if 1 \<le> a then int (bits \<lfloor>a\<rfloor>) - 1
      else (let b = 1 / a; j = int (bits \<lfloor>b\<rfloor>) - 1
            in if b = 2 ^ nat j then - j else - j - 1))"

definition round_half_even :: "rat \<Rightarrow> int" where
  "round_half_even x =
     (let f = \<lfloor>x\<rfloor>; d = x - of_int f
      in if d < 1 / 2 then f else if 1 / 2 < d then f + 1 else if even f then f else f + 1)"

definition fl :: "rat \<Rightarrow> jsnum" where
  "fl x =
     (if x = 0 then Fin 0
      else (let a = \<bar>x\<bar>;
                e = max (ilog2 a) (- 1022);
                u = pow2 (e - 52);
                m = round_half_even (a / u)
            in if 1023 < e \<or> (e = 1023 \<and> m = 2 ^ 53)
               then (if 0 < x then PInf else NInf)
               else Fin ((if 0 < x then 1 else - 1) * (of_int m * u))))"

fun js_neg :: "jsnum \<Rightarrow> jsnum" where
  "js_neg (Fin x) = Fin (- x)"
| "js_neg PInf = NInf"
| "js_neg NInf = PInf"
| "js_neg NaN = NaN"

fun js_add :: "jsnum \<Rightarrow> jsnum \<Rightarrow> jsnum" where
  "js_add (Fin x) (Fin y) = fl (x + y)"
| "js_add NaN b = NaN"
| "js_add a NaN = NaN"
| "js_add PInf NInf = NaN"
| "js_add NInf PInf = NaN"
| "js_add PInf b = PInf"
| "js_add a PInf = PInf"
| "js_add NInf b = NInf"
| "js_add a NInf = NInf"

definition js_sub :: "jsnum \<Rightarrow> jsnum \<Rightarrow> jsnum" where
  "js_sub a b = js_add a (js_neg b)"

definition js_sign :: "jsnum \<Rightarrow> int" where
  "js_sign a = (case a of Fin x \<Rightarrow> (if 0 < x then 1 else if x < 0 then - 1 else 0)
                | PInf \<Rightarrow> 1 | NInf \<Rightarrow> - 1 | NaN \<Rightarrow> 0)"

definition js_inf :: "int \<Rightarrow> jsnum" where
  \<comment> \<open>the infinity of a sign, \<open>NaN\<close> for the sign of zero\<close>
  "js_inf s = (if 0 < s then PInf else if s < 0 then NInf else NaN)"

fun js_mul :: "jsnum \<Rightarrow> jsnum \<Rightarrow> jsnum" where
  "js_mul (Fin x) (Fin y) = fl (x * y)"
| "js_mul NaN b = NaN"
| "js_mul a NaN = NaN"
| "js_mul a b = js_inf (js_sign a * js_sign b)"

fun js_div :: "jsnum \<Rightarrow> jsnum \<Rightarrow> jsnum" where
  \<comment> \<open>a zero divisor is the positive zero: the code divides by non-negative counts only\<close>
  "js_div (Fin x) (Fin y) = (if y = 0 then js_inf (js_sign (Fin x)) else fl (x / y))"
| "js_div NaN b = NaN"
| "js_div a NaN = NaN"
| "js_div (Fin x) b = Fin 0"
| "js_div a (Fin y) = js_inf (js_sign a * (if y < 0 then - 1 else 1))"
| "js_div a b = NaN"

fun js_ge :: "jsnum \<Rightarrow> jsnum \<Rightarrow> bool" where
  "js_ge (Fin x) (Fin y) = (y \<le> x)"
| "js_ge NaN b = False"
| "js_ge a NaN = False"
| "js_ge PInf b = True"
| "js_ge a NInf = True"
| "js_ge a b = False"

fun Math_round :: "jsnum \<Rightarrow> jsnum" where
  "Math_round (Fin x) = Fin (of_int \<lfloor>x + 1 / 2\<rfloor>)"
| "Math_round a = a"

definition parseInt :: "string \<Rightarrow> jsnum" where
  "parseInt s = (case parseInt_math s of None \<Rightarrow> NaN | Some i \<Rightarrow> fl (of_int i))"

subsection \<open>Numbers as text\<close>

definition digit_char :: "nat \<Rightarrow> char" where
  "digit_char n = char_of (48 + n)"

function show_pos :: "int \<Rightarrow> string" where
  \<comment> \<open>the decimal numeral of a non-negative integer\<close>
  "show_pos n = (if n < 10 then [digit_char (nat n)]
                 else show_pos (n div 10) @ [digit_char (nat (n mod 10))])"
  by auto
termination
  by (relation "measure nat") auto

declare show_pos.simps [simp del]

definition show_nat :: "nat \<Rightarrow> string" where
  "show_nat n = show_pos (int n)"

definition pow10 :: "int \<Rightarrow> rat" where
  "pow10 e = (if 0 \<le> e then 10 ^ nat e else 1 / 10 ^ nat (- e))"

definition ilog10 :: "rat \<Rightarrow> int" where
  \<comment> \<open>the decimal exponent of a positive rational: \<open>10^e \<le> a < 10^(e+1)\<close>\<close>
  "ilog10 a =
     (if 1 \<le> a then int (length (show_pos \<lfloor>a\<rfloor>)) - 1
      else (let b = 1 / a; j = int (length (show_pos \<lfloor>b\<rfloor>)) - 1
            in if b = 10 ^ nat j then - j else - j - 1))"

fun shortest :: "nat \<Rightarrow> nat \<Rightarrow> rat \<Rightarrow> int \<Rightarrow> int \<times> int" where
  \<comment> \<open>\<open>Number::toString\<close>: the digits \<open>s\<close> and the position \<open>n\<close> of the decimal point of
      the shortest decimal \<open>s * 10^(n-k)\<close> with \<open>k\<close> digits that rounds to the double \<open>x\<close>,
      the closest one, the even one on a tie; \<open>k\<close> counts up from its first argument
      (seventeen digits always suffice)\<close>
  "shortest 0 k x n = (\<lfloor>x / pow10 (n - int k)\<rfloor>, n)"
| "shortest (Suc fuel) k x n =
     (let t = pow10 (n - int k);
          lo = \<lfloor>x / t\<rfloor>;
          hi = lo + 1;
          okl = (fl (of_int lo * t) = Fin x);
          okh = (fl (of_int hi * t) = Fin x);
          dl = x - of_int lo * t;
          dh = of_int hi * t - x;
          s = (if okl \<and> okh then (if dl < dh then lo else if dh < dl then hi
                                     else if even lo then lo else hi)
               else if okl then lo else hi)
      in if okl \<or> okh then (if s = 10 ^ k then (10 ^ (k - 1), n + 1) else (s, n))
         else shortest fuel (Suc k) x n)"

definition pos_toString :: "rat \<Rightarrow> string" where
  "pos_toString x =
     (let sn = shortest 16 1 x (ilog10 x + 1);
          ds = show_pos (fst sn);
          k = int (length ds);
          n = snd sn
      in if k \<le> n \<and> n \<le> 21 then ds @ replicate (nat (n - k)) CHR ''0''
         else if 0 < n \<and> n \<le> 21 then take (nat n) ds @ ''.'' @ drop (nat n) ds
         else if - 6 < n \<and> n \<le> 0 then ''0.'' @ replicate (nat (- n)) CHR ''0'' @ ds
         else (let e = n - 1;
                   ex = (if e < 0 then ''-'' else ''+'') @ show_pos \<bar>e\<bar>
               in if k = 1 then ds @ ''e'' @ ex
                  else [hd ds] @ ''.'' @ tl ds @ ''e'' @ ex))"

fun js_toString :: "jsnum \<Rightarrow> string" where
  \<comment> \<open>the text of a number in a template string\<close>
  "js_toString NaN = ''NaN''"
| "js_toString PInf = ''Infinity''"
| "js_toString NInf = ''-Infinity''"
| "js_toString (Fin x) =
     (if x = 0 then ''0'' else if x < 0 then ''-'' @ pos_toString (- x) else pos_toString x)"

fun toFixed1 :: "jsnum \<Rightarrow> string" where
  \<comment> \<open>\<open>x.toFixed(1)\<close>: the tenth nearest to the exact value of the double \<open>x\<close>, the larger
      one on a tie\<close>
  "toFixed1 NaN = ''NaN''"
| "toFixed1 PInf = ''Infinity''"
| "toFixed1 NInf = ''-Infinity''"
| "toFixed1 (Fin x) =
     (if 10 ^ 21 \<le> \<bar>x\<bar> then js_toString (Fin x)
      else (let n = \<lfloor>\<bar>x\<bar> * 10 + 1 / 2\<rfloor>
            in (if x < 0 then ''-'' else []) @ show_pos (n div 10) @ ''.'' @ show_pos (n mod 10)))"

section \<open>The satisfaction scorer\<close>

text \<open>
  A row is one object produced by the CSV parser: its own properties in order, each column
  name with the text of the cell. A short line of the file gives a row without the later
  columns, so a lookup may find nothing (\<open>undefined\<close>, here \<open>None\<close>). The columns the code
  looks up (\<open>Department\<close>, \<open>Question n\<close>, \<open>Answer n\<close>) are never names of inherited
  properties.
\<close>

type_synonym row = "(string \<times> string) list"

record metrics_acc =
  satisfactionScore :: jsnum
  dissatisfactionScore :: jsnum
  satisfactionQuestions :: nat
  dissatisfactionQuestions :: nat

definition satisfactionLevels :: "(string \<times> jsnum) list" where
  "satisfactionLevels =
     [(''Very Satisfied'', Fin 100), (''Satisfied'', Fin 75), (''Neutral'', Fin 50),
      (''Dissatisfied'', Fin 25), (''Very Dissatisfied'', Fin 0)]"

definition qNum_of :: "string \<Rightarrow> string" where
  \<comment> \<open>\<open>key.split(' ')[1]\<close> as it is used in a template string or as a property name\<close>
  "qNum_of key = (case split_on CHR '' '' key of _ # q # _ \<Rightarrow> q | _ \<Rightarrow> ''undefined'')"

definition scoreAnswer :: "string \<Rightarrow> metrics_acc \<Rightarrow> metrics_acc" where
  \<comment> \<open>the body of the loop of \<open>calculateSatisfactionPercentage\<close> after its early return\<close>
  "scoreAnswer answer acc =
     (case starMatch answer of
        Some g \<Rightarrow>
          (let stars = parseInt g
           in if stars = NaN then acc
              else if js_ge stars (Fin 3)
              then acc\<lparr>satisfactionScore :=
                         js_add (satisfactionScore acc) (js_mul (js_div stars (Fin 5)) (Fin 100)),
                       satisfactionQuestions := satisfactionQuestions acc + 1\<rparr>
              else acc\<lparr>dissatisfactionScore :=
                         js_add (dissatisfactionScore acc)
                           (js_mul (js_div (js_sub (Fin 5) stars) (Fin 5)) (Fin 100)),
                       dissatisfactionQuestions := dissatisfactionQuestions acc + 1\<rparr>)
      | None \<Rightarrow>
          (let answerKey = trim answer
           in case map_of satisfactionLevels answerKey of
                None \<Rightarrow> acc
              | Some v \<Rightarrow>
                  if answerKey \<in> set [''Very Satisfied'', ''Satisfied'']
                  then acc\<lparr>satisfactionScore := js_add (satisfactionScore acc) v,
                           satisfactionQuestions := satisfactionQuestions acc + 1\<rparr>
                  else if answerKey \<in> set [''Dissatisfied'', ''Very Dissatisfied'']
                  then acc\<lparr>dissatisfactionScore :=
                             js_add (dissatisfactionScore acc) (js_sub (Fin 100) v),
                           dissatisfactionQuestions := dissatisfactionQuestions acc + 1\<rparr>
                  else acc))"

definition scoreKey :: "row \<Rightarrow> string \<times> string \<Rightarrow> metrics_acc \<Rightarrow> metrics_acc" where
  \<comment> \<open>one turn of \<open>Object.keys(response).forEach\<close>: the key with its own value\<close>
  "scoreKey response kv acc =
     (case kv of (key, answer) \<Rightarrow>
        if startsWith key ''Answer''
        then (case map_of response (''Question '' @ qNum_of key) of
                None \<Rightarrow> acc
              | Some question \<Rightarrow>
                  if answer = [] \<or> question = [] then acc else scoreAnswer answer acc)
        else acc)"

definition scoreAll :: "row list \<Rightarrow> metrics_acc" where
  "scoreAll responses =
     fold (\<lambda>response acc. fold (scoreKey response) response acc) responses
       \<lparr>satisfactionScore = Fin 0, dissatisfactionScore = Fin 0,
        satisfactionQuestions = 0, dissatisfactionQuestions = 0\<rparr>"

definition calculateSatisfactionPercentage :: "row list \<Rightarrow> jsnum \<times> jsnum" where
  "calculateSatisfactionPercentage responses =
     (let acc = scoreAll responses
      in (if satisfactionQuestions acc > 0
          then Math_round (js_div (satisfactionScore acc) (Fin (of_nat (satisfactionQuestions acc))))
          else Fin 0,
          if dissatisfactionQuestions acc > 0
          then Math_round (js_div (dissatisfactionScore acc)
                             (Fin (of_nat (dissatisfactionQuestions acc))))
          else Fin 0))"

section \<open>The aggregator\<close>

datatype js_error = CSV_not_found | CSV_empty | TypeError

datatype qtype = StarRating | Checkbox | MCQ | Text

text \<open>
  A count stored for an answer is a number, or, when the answer text is the name of a
  property that every object inherits, the text of that inherited value with the digit
  \<open>1\<close> appended once per tally: \<open>Obj name n\<close> stands for that text followed by \<open>n\<close> ones.
  Such a text never reads as a number.
\<close>

datatype count = Num nat | Obj string nat

definition proto_names :: "string list" where
  \<comment> \<open>the properties of \<open>Object.prototype\<close>\<close>
  "proto_names =
     [''constructor'', ''__defineGetter__'', ''__defineSetter__'', ''hasOwnProperty'',
      ''__lookupGetter__'', ''__lookupSetter__'', ''isPrototypeOf'', ''propertyIsEnumerable'',
      ''toString'', ''valueOf'', ''__proto__'', ''toLocaleString'']"

definition obj_text :: "string \<Rightarrow> string" where
  \<comment> \<open>the text of the inherited value under a name: the prototype object itself for
      \<open>__proto__\<close>, a native function otherwise\<close>
  "obj_text name =
     (if name = ''__proto__'' then ''[object Object]''
      else ''function '' @ (if name = ''constructor'' then ''Object'' else name)
           @ ''() { [native code] }'')"

definition show_count :: "count \<Rightarrow> string" where
  "show_count c = (case c of Num n \<Rightarrow> show_nat n
                   | Obj name n \<Rightarrow> obj_text name @ replicate n CHR ''1'')"

definition count_num :: "count \<Rightarrow> jsnum" where
  \<comment> \<open>a count read as a number\<close>
  "count_num c = (case c of Num n \<Rightarrow> Fin (of_nat n) | Obj name n \<Rightarrow> NaN)"

record question_analysis =
  question :: string
  responses :: "(string \<times> count) list"
  responseCount :: nat
  qa_type :: "qtype option"  \<comment> \<open>the field \<open>type\<close>; \<open>None\<close> stands for an unset (falsy) value\<close>

type_synonym qmap = "(string \<times> question_analysis) list"

record department_stats =
  totalResponses :: nat
  questionAnalysis :: qmap

record overview_stats =
  totalResponses_ov :: nat
  numberOfDepartments :: nat
  averageSatisfaction :: string
  averageDissatisfaction :: string

record analysis =
  overview :: overview_stats
  departmentStats :: "(string \<times> department_stats) list"

fun obj_set :: "'k \<Rightarrow> 'v \<Rightarrow> ('k \<times> 'v) list \<Rightarrow> ('k \<times> 'v) list" where
  \<comment> \<open>an own property is stored: an existing one keeps its place, a new one goes last\<close>
  "obj_set k v [] = [(k, v)]"
| "obj_set k v (p # ps) = (if fst p = k then (k, v) # ps else p # obj_set k v ps)"

definition obj_assign :: "string \<Rightarrow> 'v \<Rightarrow> (string \<times> 'v) list \<Rightarrow> (string \<times> 'v) list" where
  \<comment> \<open>\<open>obj[k] = v\<close>: an assignment to \<open>__proto__\<close> goes to the inherited setter and stores
      no property of the object's own\<close>
  "obj_assign k v m =
     (if k = ''__proto__'' \<and> map_of m k = None then m else obj_set k v m)"

definition bump :: "count \<Rightarrow> count" where
  \<comment> \<open>\<open>(c || 0) + 1\<close> for a stored count \<open>c\<close>\<close>
  "bump c = (case c of Num n \<Rightarrow> Num (n + 1) | Obj name n \<Rightarrow> Obj name (n + 1))"

definition next_count :: "string \<Rightarrow> (string \<times> count) list \<Rightarrow> count" where
  \<comment> \<open>\<open>(responses[k] || 0) + 1\<close>: the own property, else the inherited one, else 0\<close>
  "next_count k m =
     (case map_of m k of
        Some c \<Rightarrow> bump c
      | None \<Rightarrow> if k \<in> set proto_names then Obj k 1 else Num 1)"

definition incr :: "string \<Rightarrow> (string \<times> count) list \<Rightarrow> (string \<times> count) list" where
  \<comment> \<open>\<open>responses[k] = (responses[k] || 0) + 1\<close>\<close>
  "incr k m = obj_assign k (next_count k m) m"

definition incr_define :: "string \<Rightarrow> (string \<times> count) list \<Rightarrow> (string \<times> count) list" where
  \<comment> \<open>\<open>{...responses, [k]: (responses[k] || 0) + 1}\<close>: a computed key of an object literal
      is always stored as an own property\<close>
  "incr_define k m = obj_set k (next_count k m) m"

definition commonOptions :: "string list" where
  "commonOptions = [''Very Satisfied'', ''Satisfied'', ''Neutral'', ''Dissatisfied'', ''Very Dissatisfied'']"

definition determineQuestionType :: "string \<Rightarrow> qtype" where
  "determineQuestionType answer =
     (if starMatch answer \<noteq> None then StarRating
      else if includes_char answer CHR '','' then Checkbox
      else if answer \<in> set commonOptions then MCQ
      else Text)"

definition isMCQQuestion :: "string list \<Rightarrow> bool" where
  "isMCQQuestion answers = list_all (\<lambda>answer. answer \<in> set commonOptions \<or> answer = ''No answer'') answers"

definition isStarRatingQuestion :: "string \<Rightarrow> string list \<Rightarrow> bool" where
  "isStarRatingQuestion q answers =
     (if q = [] then False
      else list_ex (\<lambda>answer. answer \<noteq> [] \<and> starPattern_test (trim answer)) answers)"

definition init_entry :: "string \<Rightarrow> string \<Rightarrow> question_analysis" where
  "init_entry q answer =
     \<lparr>question = q, responses = [], responseCount = 0,
      qa_type = Some (determineQuestionType answer)\<rparr>"

definition tally :: "string \<Rightarrow> string \<Rightarrow> question_analysis \<Rightarrow> question_analysis" where
  \<comment> \<open>the branches of \<open>generateAnalysis\<close> for one answer, then \<open>responseCount++\<close>\<close>
  "tally q answer qa =
     (let qa' =
        (if isStarRatingQuestion q [answer]
         then qa\<lparr>qa_type := Some StarRating, responses := incr_define answer (responses qa)\<rparr>
         else if includes_char answer CHR '',''
         then qa\<lparr>responses := fold incr (map trim (split_on CHR '','' answer)) (responses qa),
                 qa_type := Some Checkbox\<rparr>
         else (let qa1 = qa\<lparr>responses := incr answer (responses qa)\<rparr>
               in if qa_type qa1 = None
                  then qa1\<lparr>qa_type := Some (if isMCQQuestion [answer] then MCQ else Text)\<rparr>
                  else qa1))
      in qa'\<lparr>responseCount := responseCount qa' + 1\<rparr>)"

definition analyzeKey :: "row \<Rightarrow> string \<times> string \<Rightarrow> qmap \<Rightarrow> js_error + qmap" where
  \<comment> \<open>one key of one row. An answer column that is missing makes \<open>answer.match\<close> or
      \<open>answer.includes\<close> throw. A question number that names an inherited property and has
      no entry of its own reads as that inherited value: nothing is initialised, and reading
      a count from its missing \<open>responses\<close> throws\<close>
  "analyzeKey response kv m =
     (case kv of (key, q) \<Rightarrow>
        if startsWith key ''Question''
        then (let qNum = qNum_of key
              in case map_of response (''Answer '' @ qNum) of
                   None \<Rightarrow> Inl TypeError
                 | Some answer \<Rightarrow>
                     (case map_of m qNum of
                        Some e \<Rightarrow> Inr (obj_set qNum (tally q answer e) m)
                      | None \<Rightarrow>
                          if qNum \<in> set proto_names then Inl TypeError
                          else Inr (obj_set qNum (tally q answer (init_entry q answer)) m)))
        else Inr m)"

fun analyzeKeys :: "row \<Rightarrow> (string \<times> string) list \<Rightarrow> qmap \<Rightarrow> js_error + qmap" where
  "analyzeKeys response [] m = Inr m"
| "analyzeKeys response (kv # kvs) m =
     (case analyzeKey response kv m of
        Inl e \<Rightarrow> Inl e
      | Inr m' \<Rightarrow> analyzeKeys response kvs m')"

fun analyzeResponses :: "row list \<Rightarrow> qmap \<Rightarrow> js_error + qmap" where
  "analyzeResponses [] m = Inr m"
| "analyzeResponses (r # rs) m =
     (case analyzeKeys r r m of
        Inl e \<Rightarrow> Inl e
      | Inr m' \<Rightarrow> analyzeResponses rs m')"

definition dept_of :: "row \<Rightarrow> string option" where
  "dept_of r = map_of r ''Department''"

definition set_add :: "'a \<Rightarrow> 'a list \<Rightarrow> 'a list" where
  "set_add x s = (if x \<in> set s then s else s @ [x])"

definition new_Set :: "'a list \<Rightarrow> 'a list" where
  \<comment> \<open>\<open>[...new Set(xs)]\<close>: the distinct values in the order of their first occurrence\<close>
  "new_Set xs = fold set_add xs []"

definition key_of_dept :: "string option \<Rightarrow> string" where
  \<comment> \<open>the property name that \<open>departmentStats[dept]\<close> uses\<close>
  "key_of_dept d = (case d of None \<Rightarrow> ''undefined'' | Some s \<Rightarrow> s)"

fun deptLoop :: "row list \<Rightarrow> string option list \<Rightarrow> (string \<times> department_stats) list
                 \<Rightarrow> js_error + (string \<times> department_stats) list" where
  "deptLoop rs [] acc = Inr acc"
| "deptLoop rs (dept # depts) acc =
     (let deptResponses = filter (\<lambda>r. dept_of r = dept) rs
      in case analyzeResponses deptResponses [] of
           Inl e \<Rightarrow> Inl e
         | Inr qa \<Rightarrow>
             deptLoop rs depts
               (obj_assign (key_of_dept dept)
                  \<lparr>totalResponses = length deptResponses, questionAnalysis = qa\<rparr> acc))"

definition readCSV :: "row list option \<Rightarrow> js_error + row list" where
  \<comment> \<open>the argument is what the parser reads at \<open>csvPath\<close>; \<open>None\<close> when no file is there\<close>
  "readCSV src =
     (case src of
        None \<Rightarrow> Inl CSV_not_found
      | Some results \<Rightarrow> if length results = 0 then Inl CSV_empty else Inr results)"

definition generateAnalysis :: "row list option \<Rightarrow> js_error + analysis" where
  "generateAnalysis src =
     (case readCSV src of
        Inl e \<Rightarrow> Inl e
      | Inr rs \<Rightarrow>
          (let departments = new_Set (map dept_of rs);
               satisfactionMetrics = calculateSatisfactionPercentage rs
           in case deptLoop rs departments [] of
                Inl e \<Rightarrow> Inl e
              | Inr ds \<Rightarrow>
                  Inr \<lparr>overview =
                         \<lparr>totalResponses_ov = length rs,
                          numberOfDepartments = length departments,
                          averageSatisfaction = js_toString (fst satisfactionMetrics) @ ''%'',
                          averageDissatisfaction = js_toString (snd satisfactionMetrics) @ ''%''\<rparr>,
                       departmentStats = ds\<rparr>))"

definition csvDepartment :: "string option \<Rightarrow> string" where
  \<comment> \<open>\<open>generateCSV\<close> of the server: \<open>response.department || "Unknown Department"\<close>\<close>
  "csvDepartment d =
     (case d of None \<Rightarrow> ''Unknown Department''
      | Some s \<Rightarrow> if s = [] then ''Unknown Department'' else s)"

definition analyze_dept :: "string option \<Rightarrow> string" where
  \<comment> \<open>the grouping key of the older \<open>analyze\<close> method: \<open>response.department || 'Unknown'\<close>\<close>
  "analyze_dept d =
     (case d of None \<Rightarrow> ''Unknown'' | Some s \<Rightarrow> if s = [] then ''Unknown'' else s)"

section \<open>The report renderer\<close>

text \<open>
  Of \<open>generatePDF\<close> the model keeps the lines of text written for one question, in order;
  fonts, spacing and the chart are left out.
\<close>

definition percentage :: "count \<Rightarrow> nat \<Rightarrow> string" where
  \<comment> \<open>\<open>((count / responseCount) * 100).toFixed(1)\<close>\<close>
  "percentage c rc = toFixed1 (js_mul (js_div (count_num c) (Fin (of_nat rc))) (Fin 100))"

fun textLines :: "nat \<Rightarrow> (string \<times> count) list \<Rightarrow> string list" where
  "textLines i [] = []"
| "textLines i (e # es) = (show_nat (i + 1) @ ''. '' @ fst e) # textLines (i + 1) es"

definition optionLine :: "string \<Rightarrow> nat \<Rightarrow> string \<times> count \<Rightarrow> string" where
  "optionLine unit rc e =
     fst e @ '': '' @ show_count (snd e) @ '' '' @ unit @ '' ('' @ percentage (snd e) rc @ ''%)''"

fun starLines :: "nat \<Rightarrow> (string \<times> count) list \<Rightarrow> string list" where
  \<comment> \<open>\<open>for (let stars = n; stars >= 1; stars--)\<close>, the count being
      \<open>responses[`${stars} stars`] || 0\<close>\<close>
  "starLines 0 rs = []"
| "starLines (Suc n) rs =
     (let stars = Suc n;
          count = (case map_of rs (show_nat stars @ '' stars'') of None \<Rightarrow> Num 0 | Some c \<Rightarrow> c)
      in (show_nat stars @ '' star ('' @ show_count count @ '' selections)'') # starLines n rs)"

definition starTotals :: "(string \<times> count) list \<Rightarrow> jsnum \<times> nat option" where
  \<comment> \<open>\<open>totalStars\<close> and \<open>totalResponses\<close> after the loop over the entries. Adding a count that
      is a text turns \<open>totalResponses\<close> into a text that is not a number, here \<open>None\<close>, and
      it stays one\<close>
  "starTotals rs =
     fold (\<lambda>e tot. let stars = parseInt (fst e)
                    in if stars = NaN then tot
                       else (js_add (fst tot) (js_mul stars (count_num (snd e))),
                             (case (snd tot, snd e) of
                                (Some n, Num c) \<Rightarrow> Some (n + c)
                              | _ \<Rightarrow> None)))
          rs (Fin 0, Some 0)"

definition averageRating :: "(string \<times> count) list \<Rightarrow> string" where
  \<comment> \<open>\<open>totalResponses > 0 ? (totalStars / totalResponses).toFixed(1) : '0.0'\<close>\<close>
  "averageRating rs =
     (let tot = starTotals rs
      in case snd tot of
           Some n \<Rightarrow> if n > 0 then toFixed1 (js_div (fst tot) (Fin (of_nat n))) else ''0.0''
         | None \<Rightarrow> ''0.0'')"

definition renderQuestion :: "question_analysis \<Rightarrow> string list" where
  "renderQuestion qData =
     [question qData] @
     (if qa_type qData = Some Text
      then ''Text Responses:'' # textLines 0 (responses qData)
      else if qa_type qData = Some MCQ
      then map (optionLine ''responses'' (responseCount qData)) (responses qData)
      else if qa_type qData = Some Checkbox
      then map (optionLine ''selections'' (responseCount qData)) (responses qData)
      else if qa_type qData = Some StarRating
      then starLines 5 (responses qData) @
           [''Average Star Rating: '' @ averageRating (responses qData)]
      else []) @
     [''Total responses for this question: '' @ show_nat (responseCount qData)]"


subsection \<open>Notions of the specification\<close>



definition count_nat :: "count \<Rightarrow> nat" where
  "count_nat c = (case c of Num n \<Rightarrow> n | Obj name n \<Rightarrow> 0)"


definition parsed_star_total :: "(string \<times> count) list \<Rightarrow> int" where
  \<comment> \<open>\<open>sum(stars*count)\<close> over the distinct answers whose text \<open>parseInt\<close> reads\<close>
  "parsed_star_total rs =
     sum_list (map (\<lambda>e. case parseInt_math (fst e) of
                           None \<Rightarrow> 0 | Some stars \<Rightarrow> stars * int (count_nat (snd e))) rs)"

definition parsed_count_total :: "(string \<times> count) list \<Rightarrow> nat" where
  \<comment> \<open>\<open>sum(count)\<close> over those answers\<close>
  "parsed_count_total rs =
     sum_list (map (\<lambda>e. case parseInt_math (fst e) of
                           None \<Rightarrow> 0 | Some stars \<Rightarrow> count_nat (snd e)) rs)"

definition parsed_star_size :: "(string \<times> count) list \<Rightarrow> int" where
  \<comment> \<open>\<open>sum(|stars|*count)\<close> over those answers: while it is at most \<open>2^53\<close>, every sum
      and product of the loop is an integer that a double holds exactly\<close>
  "parsed_star_size rs =
     sum_list (map (\<lambda>e. case parseInt_math (fst e) of
                           None \<Rightarrow> 0 | Some stars \<Rightarrow> \<bar>stars\<bar> * int (count_nat (snd e))) rs)"

definition sum_counts :: "question_analysis \<Rightarrow> nat" where
  \<comment> \<open>the sum of the occurrence counts of the distinct answers\<close>
  "sum_counts qa = sum_list (map (\<lambda>e. count_nat (snd e)) (responses qa))"

definition all_numbers :: "(string \<times> count) list \<Rightarrow> bool" where
  \<comment> \<open>every stored count is a number\<close>
  "all_numbers m = (\<forall>e\<in>set m. \<exists>n. snd e = Num n)"

definition plain_answer :: "string \<Rightarrow> bool" where
  \<comment> \<open>neither the answer text nor one of its comma-separated options is the name of an
      inherited property\<close>
  "plain_answer v =
     (v \<notin> set proto_names \<and> (\<forall>opt\<in>set (map trim (split_on CHR '','' v)). opt \<notin> set proto_names))"

section \<open>Properties\<close>

subsection \<open>Rounding to a double\<close>

lemma fl_not_NaN: "fl x \<noteq> NaN"
  by (simp add: fl_def Let_def)







subsection \<open>Scoring the five satisfaction labels\<close>

text \<open>
  Claim C2. One question with a non-empty text, answered once with each of the five labels
  (in any department): the scorer adds 100 and 75 to the satisfaction sum with denominator 2,
  and \<open>100 - 25\<close> and \<open>100 - 0\<close> to the dissatisfaction sum with denominator 2, so both
  averages are 87.5, rounded half up to 88. The answer \<open>Neutral\<close> leaves every
  accumulator as it was. All the numbers involved are doubles that the operations give
  exactly.
\<close>

theorem mcq_five_labels_percentages:
  "calculateSatisfactionPercentage
     (map (\<lambda>a. [(''Department'', d), (''Question 1'', c # q), (''Answer 1'', a)])
        [''Very Satisfied'', ''Satisfied'', ''Neutral'', ''Dissatisfied'', ''Very Dissatisfied''])
     = (Fin 88, Fin 88)
   \<and> scoreAll
     (map (\<lambda>a. [(''Department'', d), (''Question 1'', c # q), (''Answer 1'', a)])
        [''Very Satisfied'', ''Satisfied'', ''Neutral'', ''Dissatisfied'', ''Very Dissatisfied''])
     = \<lparr>satisfactionScore = Fin (100 + 75), dissatisfactionScore = Fin ((100 - 25) + (100 - 0)),
        satisfactionQuestions = 2, dissatisfactionQuestions = 2\<rparr>
   \<and> scoreAnswer ''Neutral'' acc = acc"
proof -
  have f: "fl 100 = Fin 100" "fl 175 = Fin 175" "fl 75 = Fin 75" "fl (175 / 2) = Fin (175 / 2)"
    by code_simp+
  have s: "scoreAll
     (map (\<lambda>a. [(''Department'', d), (''Question 1'', c # q), (''Answer 1'', a)])
        [''Very Satisfied'', ''Satisfied'', ''Neutral'', ''Dissatisfied'', ''Very Dissatisfied''])
     = \<lparr>satisfactionScore = Fin 175, dissatisfactionScore = Fin 175,
        satisfactionQuestions = 2, dissatisfactionQuestions = 2\<rparr>"
    by (simp add: scoreAll_def scoreKey_def scoreAnswer_def startsWith_def qNum_of_def
        match_at_def is_digit_def is_space_def lower_def trim_def satisfactionLevels_def
        js_sub_def f)
  have r: "Math_round (js_div (Fin 175) (Fin 2)) = Fin 88"
    by (simp add: f floor_eq_iff)
  have n: "scoreAnswer ''Neutral'' acc = acc"
    by (simp add: scoreAnswer_def match_at_def is_digit_def is_space_def lower_def trim_def
        satisfactionLevels_def)
  show ?thesis
    using s r n by (simp add: calculateSatisfactionPercentage_def)
qed

subsection \<open>Matching the star pattern\<close>

lemma lower_digit: "is_digit c \<Longrightarrow> lower c = c"
  by (auto simp: is_digit_def lower_def)

lemma lower_space: "is_space c \<Longrightarrow> lower c = c"
  by (auto simp: is_space_def lower_def)

lemma takeWhile_run:
  "\<forall>c\<in>set ds. P c \<Longrightarrow> r = [] \<or> \<not> P (hd r) \<Longrightarrow> takeWhile P (ds @ r) = ds"
  by (induction ds) (auto simp: takeWhile_eq_Nil_iff)

lemma dropWhile_run:
  "\<forall>c\<in>set ds. P c \<Longrightarrow> r = [] \<or> \<not> P (hd r) \<Longrightarrow> dropWhile P (ds @ r) = r"
  by (induction ds) (auto simp: dropWhile_eq_self_iff)

lemma star_prefix_head:
  assumes "map lower (take 4 sfx) = ''star''"
  shows "sfx \<noteq> [] \<and> \<not> is_digit (hd sfx) \<and> \<not> is_space (hd sfx)"
proof (cases sfx)
  case Nil
  with assms show ?thesis by simp
next
  case (Cons c cs)
  with assms have l: "lower c = CHR ''s''" by simp
  have "\<not> is_digit c"
  proof
    assume d: "is_digit c"
    then have "lower c = c" by (rule lower_digit)
    with l d show False by (simp add: is_digit_def)
  qed
  moreover have "\<not> is_space c"
  proof
    assume d: "is_space c"
    then have "lower c = c" by (rule lower_space)
    with l d show False by (simp add: is_space_def)
  qed
  ultimately show ?thesis using Cons by simp
qed

lemma digit_not_space: "is_digit c \<Longrightarrow> \<not> is_space c"
  by (auto simp: is_digit_def is_space_def)

lemma match_at_star:
  assumes "ds \<noteq> []" "\<forall>c\<in>set ds. is_digit c" "\<forall>c\<in>set ws. is_space c"
    and "map lower (take 4 sfx) = ''star''"
  shows "match_at (ds @ ws @ sfx) = Some ds"
proof -
  from assms(4) have h: "sfx \<noteq> []" "\<not> is_digit (hd sfx)" "\<not> is_space (hd sfx)"
    using star_prefix_head by auto
  have nd: "ws @ sfx = [] \<or> \<not> is_digit (hd (ws @ sfx))"
    using h assms(3) by (cases ws) (auto dest: digit_not_space)
  have t: "takeWhile is_digit (ds @ ws @ sfx) = ds"
    using assms(2) nd by (rule takeWhile_run)
  have d: "dropWhile is_digit (ds @ ws @ sfx) = ws @ sfx"
    using assms(2) nd by (rule dropWhile_run)
  have s: "dropWhile is_space (ws @ sfx) = sfx"
    using assms(3) h by (intro dropWhile_run) auto
  show ?thesis
    using assms(1,4) by (simp add: match_at_def t d s)
qed

lemma starMatch_star:
  assumes "ds \<noteq> []" "\<forall>c\<in>set ds. is_digit c" "\<forall>c\<in>set ws. is_space c"
    and "map lower (take 4 sfx) = ''star''"
  shows "starMatch (ds @ ws @ sfx) = Some ds"
proof -
  from assms(1) obtain c cs where "ds @ ws @ sfx = c # cs" by (cases ds) auto
  moreover have "match_at (ds @ ws @ sfx) = Some ds" using assms by (rule match_at_star)
  ultimately show ?thesis by simp
qed

lemma parseInt_math_digits:
  assumes "ds \<noteq> []" "\<forall>c\<in>set ds. is_digit c"
  shows "parseInt_math ds = Some (dec_val ds)"
proof -
  from assms obtain c cs where ds: "ds = c # cs" and c: "is_digit c" by (cases ds) auto
  have sp: "dropWhile is_space ds = ds" using ds c by (simp add: digit_not_space)
  have sg: "c \<noteq> CHR ''-''" "c \<noteq> CHR ''+''" using c by (auto simp: is_digit_def)
  have nx: "map lower (take 2 ds) \<noteq> ''0x''"
  proof (cases cs)
    case Nil
    with ds show ?thesis by simp
  next
    case (Cons e es)
    with assms(2) ds have "is_digit e" by simp
    then have "lower e \<noteq> CHR ''x''" by (auto simp: is_digit_def lower_def)
    with ds Cons show ?thesis by simp
  qed
  have tw: "takeWhile is_digit ds = ds" using assms(2) by (simp add: takeWhile_eq_all_conv)
  show ?thesis
    using sp sg nx tw assms(1) by (auto simp: parseInt_math_def ds Let_def)
qed

lemma parseInt_digits:
  assumes "ds \<noteq> []" "\<forall>c\<in>set ds. is_digit c"
  shows "parseInt ds = fl (of_int (dec_val ds))"
  using parseInt_math_digits[OF assms] by (simp add: parseInt_def)

subsection \<open>Star answers and the range of the star count\<close>

text \<open>
  Claim C1, against the code. The scorer has no range check on the star count: the answer
  \<open>7 stars\<close> adds 140 to the satisfaction sum and 1 to its denominator, and the answer
  \<open>0 stars\<close> adds 100 to the dissatisfaction sum and 1 to its denominator.
\<close>

theorem out_of_range_stars_counterexample:
  "scoreAll [ [(''Question 1'', ''Rate us''), (''Answer 1'', ''7 stars'')] ]
     = \<lparr>satisfactionScore = Fin 140, dissatisfactionScore = Fin 0,
        satisfactionQuestions = 1, dissatisfactionQuestions = 0\<rparr>
   \<and> scoreAll [ [(''Question 1'', ''Rate us''), (''Answer 1'', ''0 stars'')] ]
     = \<lparr>satisfactionScore = Fin 0, dissatisfactionScore = Fin 100,
        satisfactionQuestions = 0, dissatisfactionQuestions = 1\<rparr>"
  by code_simp

text \<open>
  Claim C1, amended. For an answer column of a row whose question text is present and not
  empty, an answer made of a run of digits, optional white space and text starting with
  \<open>star\<close> (in any case) is always scored, whatever the value of the digits is. With
  \<open>stars\<close> the double nearest to that value (what \<open>parseInt\<close> returns): when
  \<open>stars >= 3\<close> the double \<open>(stars / 5) * 100\<close> is added to the satisfaction sum and 1 to
  the satisfaction denominator, otherwise the double \<open>((5 - stars) / 5) * 100\<close> is added to
  the dissatisfaction sum and 1 to the dissatisfaction denominator; each operation is a
  double operation.
\<close>

theorem star_answer_scored_without_range_check:
  assumes "startsWith key ''Answer''"
    and "map_of response (''Question '' @ qNum_of key) = Some q" and "q \<noteq> []"
    and "ds \<noteq> []" and "\<forall>c\<in>set ds. is_digit c" and "\<forall>c\<in>set ws. is_space c"
    and "map lower (take 4 sfx) = ''star''"
  shows "scoreKey response (key, ds @ ws @ sfx) acc =
     (if js_ge (fl (of_int (dec_val ds))) (Fin 3)
      then acc\<lparr>satisfactionScore :=
                 js_add (satisfactionScore acc)
                   (js_mul (js_div (fl (of_int (dec_val ds))) (Fin 5)) (Fin 100)),
               satisfactionQuestions := satisfactionQuestions acc + 1\<rparr>
      else acc\<lparr>dissatisfactionScore :=
                 js_add (dissatisfactionScore acc)
                   (js_mul (js_div (js_sub (Fin 5) (fl (of_int (dec_val ds)))) (Fin 5)) (Fin 100)),
               dissatisfactionQuestions := dissatisfactionQuestions acc + 1\<rparr>)"
proof -
  have m: "starMatch (ds @ ws @ sfx) = Some ds"
    using assms(4-7) by (rule starMatch_star)
  have p: "parseInt ds = fl (of_int (dec_val ds))"
    using assms(4,5) by (rule parseInt_digits)
  have "scoreKey response (key, ds @ ws @ sfx) acc = scoreAnswer (ds @ ws @ sfx) acc"
    using assms(1-4) by (simp add: scoreKey_def)
  then show ?thesis
    by (simp add: scoreAnswer_def m p fl_not_NaN Let_def)
qed

text \<open>The hypotheses hold for the answer \<open>7 stars\<close> of a row with a question text.\<close>

theorem star_answer_scored_without_range_check_witness:
  "startsWith ''Answer 1'' ''Answer''
   \<and> map_of [(''Question 1'', ''Rate us''), (''Answer 1'', ''7 stars'')]
        (''Question '' @ qNum_of ''Answer 1'') = Some ''Rate us''
   \<and> is_digit CHR ''7'' \<and> is_space CHR '' ''
   \<and> map lower (take 4 ''stars'') = ''star''
   \<and> scoreKey [(''Question 1'', ''Rate us''), (''Answer 1'', ''7 stars'')]
        (''Answer 1'', ''7'' @ '' '' @ ''stars'')
        \<lparr>satisfactionScore = Fin 0, dissatisfactionScore = Fin 0,
         satisfactionQuestions = 0, dissatisfactionQuestions = 0\<rparr>
      = \<lparr>satisfactionScore = Fin 140, dissatisfactionScore = Fin 0,
         satisfactionQuestions = 1, dissatisfactionQuestions = 0\<rparr>"
proof -
  have h1: "startsWith ''Answer 1'' ''Answer''" by (simp add: startsWith_def)
  have h2: "map_of [(''Question 1'', ''Rate us''), (''Answer 1'', ''7 stars'')]
        (''Question '' @ qNum_of ''Answer 1'') = Some ''Rate us''"
    by (simp add: qNum_of_def)
  have h3: "''Rate us'' \<noteq> []" and h4: "''7'' \<noteq> []" by simp_all
  have h5: "\<forall>c\<in>set ''7''. is_digit c" by (simp add: is_digit_def)
  have h6: "\<forall>c\<in>set '' ''. is_space c" by (simp add: is_space_def)
  have h7: "map lower (take 4 ''stars'') = ''star''" by (simp add: lower_def)
  have v: "dec_val ''7'' = 7" by (simp add: dec_val_def digit_val_def)
  have g: "js_ge (fl 7) (Fin 3)" by code_simp
  have a: "js_add (Fin 0) (js_mul (js_div (fl 7) (Fin 5)) (Fin 100)) = Fin 140" by code_simp
  show ?thesis
    using star_answer_scored_without_range_check [OF h1 h2 h3 h4 h5 h6 h7] h1 h2 h5 h6 h7
    by (simp add: v g a)
qed

subsection \<open>Answers with a comma\<close>

lemma set_split_while: "c \<in> set xs \<Longrightarrow> c \<in> set (takeWhile P xs) \<or> c \<in> set (dropWhile P xs)"
proof -
  assume "c \<in> set xs"
  then have "c \<in> set (takeWhile P xs @ dropWhile P xs)" by simp
  then show ?thesis by (simp only: set_append Un_iff)
qed

lemma set_trim: 
  assumes "c \<in> set a" shows "is_space c \<or> c \<in> set (trim a)"
proof -
  from assms consider "c \<in> set (takeWhile is_space a)" | "c \<in> set (dropWhile is_space a)"
    using set_split_while by fast
  then show ?thesis
  proof cases
    case 1
    then show ?thesis by (auto dest: set_takeWhileD)
  next
    case 2
    then have "c \<in> set (rev (dropWhile is_space a))" by simp
    then consider "c \<in> set (takeWhile is_space (rev (dropWhile is_space a)))"
      | "c \<in> set (dropWhile is_space (rev (dropWhile is_space a)))"
      using set_split_while by fast
    then show ?thesis
    proof cases
      case 1
      then show ?thesis by (auto dest: set_takeWhileD)
    next
      case 2
      then show ?thesis by (simp add: trim_def)
    qed
  qed
qed

lemma starPattern_no_comma:
  assumes "starPattern_test t" shows "CHR '','' \<notin> set t"
proof
  assume c: "CHR '','' \<in> set t"
  let ?r1 = "dropWhile is_digit t"
  let ?r2 = "dropWhile is_space ?r1"
  from assms have r: "map lower ?r2 = ''star'' \<or> map lower ?r2 = ''stars''"
    by (simp add: starPattern_test_def Let_def)
  from c consider "CHR '','' \<in> set (takeWhile is_digit t)" | "CHR '','' \<in> set ?r1"
    using set_split_while by fast
  then show False
  proof cases
    case 1
    then have "is_digit CHR '',''" by (rule set_takeWhileD[THEN conjunct2])
    then show False by (simp add: is_digit_def)
  next
    case 2
    then consider "CHR '','' \<in> set (takeWhile is_space ?r1)" | "CHR '','' \<in> set ?r2"
      using set_split_while by fast
    then show False
    proof cases
      case 1
      then have "is_space CHR '',''" by (rule set_takeWhileD[THEN conjunct2])
      then show False by (simp add: is_space_def)
    next
      case 2
      then have "lower CHR '','' \<in> set (map lower ?r2)" by (simp only: set_map) (rule imageI)
      moreover have "lower CHR '','' = CHR '',''" by (simp add: lower_def)
      ultimately have "CHR '','' \<in> set (map lower ?r2)" by simp
      with r show False by auto
    qed
  qed
qed

lemma comma_not_star:
  assumes "includes_char a CHR '',''" shows "\<not> isStarRatingQuestion q [a]"
proof
  assume "isStarRatingQuestion q [a]"
  then have "starPattern_test (trim a)"
    by (simp add: isStarRatingQuestion_def split: if_splits)
  then have n: "CHR '','' \<notin> set (trim a)" by (rule starPattern_no_comma)
  from assms have "CHR '','' \<in> set a" by (simp add: includes_char_def)
  then have "is_space CHR '','' \<or> CHR '','' \<in> set (trim a)" by (rule set_trim)
  with n show False by (simp add: is_space_def)
qed

text \<open>
  Claim C3, against the code. \<open>determineQuestionType\<close> tests the star pattern, unanchored,
  before the comma: an answer with a comma whose text holds a star fragment is classified
  \<open>StarRating\<close>.
\<close>

theorem comma_answer_star_fragment_counterexample:
  "includes_char ''5 stars, 4 stars'' CHR '',''
   \<and> determineQuestionType ''5 stars, 4 stars'' = StarRating"
  by code_simp

text \<open>
  Claim C3, amended. For every answer text that contains a comma: \<open>determineQuestionType\<close>
  never returns \<open>MCQ\<close> (nor \<open>Text\<close>), and returns \<open>StarRating\<close> exactly when the text
  holds a match of the unanchored star pattern, \<open>Checkbox\<close> otherwise; the anchored star test
  of the aggregator never accepts the answer, and the category the aggregator records for
  the question after tallying the answer is \<open>Checkbox\<close>, whatever the entry held before.
\<close>

theorem comma_answer_classification:
  assumes "includes_char a CHR '',''"
  shows "determineQuestionType a \<noteq> MCQ
       \<and> determineQuestionType a \<noteq> Text
       \<and> (determineQuestionType a = StarRating \<longleftrightarrow> starMatch a \<noteq> None)
       \<and> \<not> isStarRatingQuestion q [a]
       \<and> qa_type (tally q a qa) = Some Checkbox"
proof -
  have s: "\<not> isStarRatingQuestion q [a]" using assms by (rule comma_not_star)
  have t: "qa_type (tally q a qa) = Some Checkbox"
    using assms s by (simp add: tally_def Let_def)
  show ?thesis
    using assms s t by (simp add: determineQuestionType_def)
qed

text \<open>An answer made of two satisfaction labels is such an answer.\<close>

theorem comma_answer_classification_witness:
  "includes_char ''Satisfied, Neutral'' CHR '',''
   \<and> determineQuestionType ''Satisfied, Neutral'' = Checkbox
   \<and> qa_type (tally ''Mood?'' ''Satisfied, Neutral'' (init_entry ''Mood?'' ''Satisfied, Neutral''))
       = Some Checkbox"
proof -
  have h: "includes_char ''Satisfied, Neutral'' CHR '',''" by (simp add: includes_char_def)
  have n: "starMatch ''Satisfied, Neutral'' = None" by code_simp
  show ?thesis
    using comma_answer_classification [OF h, of "''Mood?''" "init_entry ''Mood?'' ''Satisfied, Neutral''"] h n
    by (cases "determineQuestionType ''Satisfied, Neutral''") simp_all
qed

subsection \<open>Objects as association lists; the department loop\<close>

lemma keys_obj_set: "fst ` set (obj_set k v m) = insert k (fst ` set m)"
  by (induction m) auto

lemma set_obj_set: "set (obj_set k v m) \<subseteq> insert (k, v) (set m)"
  by (induction m) auto

lemma obj_set_fresh: "k \<notin> fst ` set m \<Longrightarrow> obj_set k v m = m @ [(k, v)]"
  by (induction m) auto

lemma set_obj_assign: "set (obj_assign k v m) \<subseteq> insert (k, v) (set m)"
  using set_obj_set[of k v m] by (auto simp: obj_assign_def)

lemma keys_obj_assign_sub: "fst ` set (obj_assign k v m) \<subseteq> insert k (fst ` set m)"
  by (auto simp: obj_assign_def keys_obj_set)

lemma keys_obj_assign_sup: "fst ` set m \<subseteq> fst ` set (obj_assign k v m)"
  by (auto simp: obj_assign_def keys_obj_set)

lemma keys_obj_assign_new:
  "k \<noteq> ''__proto__'' \<Longrightarrow> k \<in> fst ` set (obj_assign k v m)"
  by (simp add: obj_assign_def keys_obj_set)

lemma set_fold_set_add: "set (fold set_add xs acc) = set xs \<union> set acc"
  by (induction xs arbitrary: acc) (auto simp: set_add_def)

lemma distinct_fold_set_add: "distinct acc \<Longrightarrow> distinct (fold set_add xs acc)"
  by (induction xs arbitrary: acc) (auto simp: set_add_def)

lemma set_new_Set: "set (new_Set xs) = set xs"
  by (simp add: new_Set_def set_fold_set_add)

lemma distinct_new_Set: "distinct (new_Set xs)"
  by (simp add: new_Set_def distinct_fold_set_add)

lemma deptLoop_keys_sub:
  "deptLoop rs ds acc = Inr res \<Longrightarrow> fst ` set res \<subseteq> fst ` set acc \<union> key_of_dept ` set ds"
proof (induction ds arbitrary: acc)
  case Nil
  then show ?case by simp
next
  case (Cons d ds)
  from Cons.prems obtain st where
    rest: "deptLoop rs ds (obj_assign (key_of_dept d) st acc) = Inr res"
    by (auto simp: Let_def split: sum.splits)
  from Cons.IH[OF rest] keys_obj_assign_sub[of "key_of_dept d" st acc]
  show ?case by auto
qed

lemma deptLoop_keys_sup:
  "deptLoop rs ds acc = Inr res \<Longrightarrow>
   fst ` set acc \<union> (key_of_dept ` set ds - {''__proto__''}) \<subseteq> fst ` set res"
proof (induction ds arbitrary: acc)
  case Nil
  then show ?case by simp
next
  case (Cons d ds)
  from Cons.prems obtain st where
    rest: "deptLoop rs ds (obj_assign (key_of_dept d) st acc) = Inr res"
    by (auto simp: Let_def split: sum.splits)
  from Cons.IH[OF rest] keys_obj_assign_sup[of acc "key_of_dept d" st]
    keys_obj_assign_new[of "key_of_dept d" st acc]
  show ?case by auto
qed

lemma deptLoop_counts:
  assumes "deptLoop rs ds acc = Inr res"
    and "\<And>k st. (k, st) \<in> set acc \<Longrightarrow> \<exists>d\<in>D. k = key_of_dept d
           \<and> totalResponses st = length (filter (\<lambda>r. dept_of r = d) rs)"
    and "set ds \<subseteq> D" and "(k, st) \<in> set res"
  shows "\<exists>d\<in>D. k = key_of_dept d \<and> totalResponses st = length (filter (\<lambda>r. dept_of r = d) rs)"
  using assms
proof (induction ds arbitrary: acc)
  case Nil
  then show ?case by simp
next
  case (Cons d ds)
  from Cons.prems(1) obtain qa where
    rest: "deptLoop rs ds (obj_assign (key_of_dept d)
        \<lparr>totalResponses = length (filter (\<lambda>r. dept_of r = d) rs), questionAnalysis = qa\<rparr> acc) = Inr res"
    by (auto simp: Let_def split: sum.splits)
  let ?new = "\<lparr>totalResponses = length (filter (\<lambda>r. dept_of r = d) rs), questionAnalysis = qa\<rparr>"
  have inv: "\<exists>d'\<in>D. j = key_of_dept d'
        \<and> totalResponses s = length (filter (\<lambda>r. dept_of r = d') rs)"
    if "(j, s) \<in> set (obj_assign (key_of_dept d) ?new acc)" for j s
  proof -
    from that set_obj_assign have "(j, s) \<in> insert (key_of_dept d, ?new) (set acc)"
      by (rule rev_subsetD)
    then consider "j = key_of_dept d" "s = ?new" | "(j, s) \<in> set acc" by auto
    then show ?thesis
    proof cases
      case 1
      with Cons.prems(3) show ?thesis by auto
    next
      case 2
      then show ?thesis by (rule Cons.prems(2))
    qed
  qed
  from Cons.prems(3) have "set ds \<subseteq> D" by simp
  from Cons.IH[OF rest inv this Cons.prems(4)] show ?case .
qed

lemma deptLoop_totals:
  assumes "deptLoop rs ds acc = Inr res" and "distinct (map key_of_dept ds)"
    and "key_of_dept ` set ds \<inter> fst ` set acc = {}"
    and "''__proto__'' \<notin> key_of_dept ` set ds"
  shows "map (\<lambda>e. totalResponses (snd e)) res =
         map (\<lambda>e. totalResponses (snd e)) acc
         @ map (\<lambda>d. length (filter (\<lambda>r. dept_of r = d) rs)) ds"
  using assms
proof (induction ds arbitrary: acc)
  case Nil
  then show ?case by simp
next
  case (Cons d ds)
  from Cons.prems(1) obtain qa where
    rest: "deptLoop rs ds (obj_assign (key_of_dept d)
        \<lparr>totalResponses = length (filter (\<lambda>r. dept_of r = d) rs), questionAnalysis = qa\<rparr> acc) = Inr res"
    by (auto simp: Let_def split: sum.splits)
  let ?st = "\<lparr>totalResponses = length (filter (\<lambda>r. dept_of r = d) rs), questionAnalysis = qa\<rparr>"
  from Cons.prems(3) have fresh: "key_of_dept d \<notin> fst ` set acc" by auto
  from Cons.prems(4) have np: "key_of_dept d \<noteq> ''__proto__''" by auto
  have eq: "obj_assign (key_of_dept d) ?st acc = acc @ [(key_of_dept d, ?st)]"
    using np obj_set_fresh[OF fresh] by (simp add: obj_assign_def)
  have disj: "key_of_dept ` set ds \<inter> fst ` set (obj_assign (key_of_dept d) ?st acc) = {}"
    using Cons.prems(2,3) by (auto simp: eq)
  have dist: "distinct (map key_of_dept ds)" using Cons.prems(2) by simp
  have np': "''__proto__'' \<notin> key_of_dept ` set ds" using Cons.prems(4) by auto
  from Cons.IH[OF rest dist disj np'] show ?case by (simp add: eq)
qed

lemma sum_indicator:
  "distinct ds \<Longrightarrow> x \<in> set ds \<Longrightarrow> sum_list (map (\<lambda>d. if x = d then 1 else 0) ds) = (1::nat)"
proof (induction ds)
  case Nil
  then show ?case by simp
next
  case (Cons d ds)
  show ?case
  proof (cases "x = d")
    case True
    with Cons.prems have "x \<notin> set ds" by simp
    then have "sum_list (map (\<lambda>d. if x = d then 1 else 0) ds) = (0::nat)"
      by (induction ds) auto
    with True show ?thesis by simp
  next
    case False
    with Cons show ?thesis by simp
  qed
qed

lemma sum_group_sizes:
  "distinct ds \<Longrightarrow> f ` set rs \<subseteq> set ds \<Longrightarrow>
   sum_list (map (\<lambda>d. length (filter (\<lambda>r. f r = d) rs)) ds) = length rs"
proof (induction rs)
  case Nil
  then show ?case by simp
next
  case (Cons r rs)
  have "sum_list (map (\<lambda>d. length (filter (\<lambda>r. f r = d) (r # rs))) ds)
      = sum_list (map (\<lambda>d. (if f r = d then 1 else 0) + length (filter (\<lambda>r. f r = d) rs)) ds)"
    by (rule arg_cong[where f = sum_list]) (simp)
  also have "\<dots> = sum_list (map (\<lambda>d. if f r = d then 1 else 0) ds)
      + sum_list (map (\<lambda>d. length (filter (\<lambda>r. f r = d) rs)) ds)"
    by (simp add: sum_list_addf)
  also have "\<dots> = 1 + length rs"
    using Cons by (simp add: sum_indicator)
  finally show ?case by simp
qed

lemma key_of_dept_inj:
  assumes "\<not> (None \<in> D \<and> Some ''undefined'' \<in> D)"
  shows "inj_on key_of_dept D"
proof (rule inj_onI)
  fix x y assume "x \<in> D" "y \<in> D" "key_of_dept x = key_of_dept y"
  with assms show "x = y"
    by (cases x; cases y) (auto simp: key_of_dept_def)
qed

lemma generateAnalysis_Inr:
  assumes "generateAnalysis src = Inr a"
  obtains rs where "src = Some rs" "rs \<noteq> []"
    and "deptLoop rs (new_Set (map dept_of rs)) [] = Inr (departmentStats a)"
    and "totalResponses_ov (overview a) = length rs"
    and "numberOfDepartments (overview a) = length (new_Set (map dept_of rs))"
proof -
  from assms obtain rs where rs: "readCSV src = Inr rs"
    by (auto simp: generateAnalysis_def split: sum.splits)
  then have s: "src = Some rs" "rs \<noteq> []"
    by (auto simp: readCSV_def split: option.splits if_splits)
  from assms rs obtain ds where ds: "deptLoop rs (new_Set (map dept_of rs)) [] = Inr ds"
    by (auto simp: generateAnalysis_def Let_def split: sum.splits)
  with assms rs have "departmentStats a = ds" "totalResponses_ov (overview a) = length rs"
    "numberOfDepartments (overview a) = length (new_Set (map dept_of rs))"
    by (auto simp: generateAnalysis_def Let_def)
  with s ds that show thesis by simp
qed

subsection \<open>An empty row sequence\<close>

text \<open>
  Claim C4, against the code. \<open>readCSV\<close> rejects an empty result with the error
  \<open>CSV file is empty\<close>, and \<open>generateAnalysis\<close> passes the error on: no overview and no
  maps are produced for an empty row sequence.
\<close>

theorem empty_rows_rejected_counterexample:
  "generateAnalysis (Some []) = Inl CSV_empty"
  by code_simp

text \<open>
  Claim C4, amended. The analysis of an empty row sequence fails with \<open>CSV file is empty\<close>;
  the scorer alone gives 0 and 0 on the empty sequence; and whenever the analysis does
  produce a result, the input was a non-empty row sequence, the overview's total is its
  length (so at least 1), the department count is at least 1, and the department map is
  not empty provided some row has a department label other than \<open>__proto__\<close> (an
  assignment under that name stores no property).
\<close>

theorem analysis_only_for_nonempty_rows:
  "generateAnalysis (Some []) = Inl CSV_empty
   \<and> calculateSatisfactionPercentage [] = (Fin 0, Fin 0)
   \<and> (generateAnalysis src = Inr a \<longrightarrow>
        (\<exists>rs. src = Some rs \<and> rs \<noteq> [] \<and> totalResponses_ov (overview a) = length rs
           \<and> ((\<exists>r\<in>set rs. key_of_dept (dept_of r) \<noteq> ''__proto__'')
                \<longrightarrow> departmentStats a \<noteq> []))
        \<and> 0 < totalResponses_ov (overview a)
        \<and> 0 < numberOfDepartments (overview a))"
proof -
  have e: "generateAnalysis (Some []) = Inl CSV_empty"
    by (simp add: generateAnalysis_def readCSV_def)
  have z: "calculateSatisfactionPercentage [] = (Fin 0, Fin 0)"
    by (simp add: calculateSatisfactionPercentage_def scoreAll_def)
  have g: "(\<exists>rs. src = Some rs \<and> rs \<noteq> [] \<and> totalResponses_ov (overview a) = length rs
           \<and> ((\<exists>r\<in>set rs. key_of_dept (dept_of r) \<noteq> ''__proto__'')
                \<longrightarrow> departmentStats a \<noteq> []))
        \<and> 0 < totalResponses_ov (overview a)
        \<and> 0 < numberOfDepartments (overview a)" if "generateAnalysis src = Inr a"
  proof -
    from that obtain rs where rs: "src = Some rs" "rs \<noteq> []"
      and loop: "deptLoop rs (new_Set (map dept_of rs)) [] = Inr (departmentStats a)"
      and tot: "totalResponses_ov (overview a) = length rs"
      and nd: "numberOfDepartments (overview a) = length (new_Set (map dept_of rs))"
      by (rule generateAnalysis_Inr)
    from rs(2) have "set (new_Set (map dept_of rs)) \<noteq> {}" by (simp add: set_new_Set)
    then have ne: "new_Set (map dept_of rs) \<noteq> []" by auto
    have "departmentStats a \<noteq> []" if "\<exists>r\<in>set rs. key_of_dept (dept_of r) \<noteq> ''__proto__''"
    proof -
      from that obtain r where "r \<in> set rs" "key_of_dept (dept_of r) \<noteq> ''__proto__''" by auto
      then have "key_of_dept (dept_of r)
          \<in> key_of_dept ` set (new_Set (map dept_of rs)) - {''__proto__''}"
        by (simp add: set_new_Set)
      with deptLoop_keys_sup[OF loop] have "key_of_dept (dept_of r) \<in> fst ` set (departmentStats a)"
        by blast
      then show ?thesis by auto
    qed
    with rs tot nd ne show ?thesis by simp
  qed
  from e z g show ?thesis by blast
qed

text \<open>A sequence of one row is analysed, with total 1 and one department.\<close>

theorem analysis_only_for_nonempty_rows_witness:
  "generateAnalysis (Some [ [(''Department'', ''IT'')] ])
     = Inr \<lparr>overview = \<lparr>totalResponses_ov = 1, numberOfDepartments = 1,
                         averageSatisfaction = ''0%'', averageDissatisfaction = ''0%''\<rparr>,
            departmentStats = [(''IT'', \<lparr>totalResponses = 1, questionAnalysis = []\<rparr>)]\<rparr>
   \<and> (\<exists>rs. Some [ [(''Department'', ''IT'')] ] = Some rs \<and> rs \<noteq> [] \<and> length rs = 1)"
proof -
  let ?A = "\<lparr>overview = \<lparr>totalResponses_ov = 1, numberOfDepartments = 1,
                         averageSatisfaction = ''0%'', averageDissatisfaction = ''0%''\<rparr>,
            departmentStats = [(''IT'', \<lparr>totalResponses = 1, questionAnalysis = []\<rparr>)]\<rparr>"
  have h: "generateAnalysis (Some [ [(''Department'', ''IT'')] ]) = Inr ?A"
    by code_simp
  from analysis_only_for_nonempty_rows [of "Some [ [(''Department'', ''IT'')] ]" ?A] h
  have "\<exists>rs. Some [ [(''Department'', ''IT'')] ] = Some rs \<and> rs \<noteq> []
          \<and> totalResponses_ov (overview ?A) = length rs"
    by blast
  then have "\<exists>rs. Some [ [(''Department'', ''IT'')] ] = Some rs \<and> rs \<noteq> [] \<and> length rs = 1"
    by simp
  with h show ?thesis by blast
qed

subsection \<open>Rows without a department\<close>

text \<open>
  Claim C5, against the code. The aggregator takes the \<open>Department\<close> column as it is: a row
  whose department cell is empty is grouped under the empty label, not under
  \<open>Unknown Department\<close>; the older \<open>analyze\<close> method would use \<open>Unknown\<close>.
\<close>

theorem empty_department_label_counterexample:
  "generateAnalysis
     (Some [ [(''Department'', []), (''Question 1'', ''How was it?''), (''Answer 1'', ''Good'')] ])
     = Inr \<lparr>overview = \<lparr>totalResponses_ov = 1, numberOfDepartments = 1,
                         averageSatisfaction = ''0%'', averageDissatisfaction = ''0%''\<rparr>,
            departmentStats =
              [([], \<lparr>totalResponses = 1,
                      questionAnalysis =
                        [(''1'', \<lparr>question = ''How was it?'', responses = [(''Good'', Num 1)],
                                 responseCount = 1, qa_type = Some Text\<rparr>)]\<rparr>)]\<rparr>
   \<and> analyze_dept (Some []) = ''Unknown''"
  by code_simp

text \<open>
  Claim C5, amended. \<open>Unknown Department\<close> is what the exporter \<open>generateCSV\<close> writes in
  the \<open>Department\<close> column for a response whose department is missing or empty. The
  aggregator applies no fallback: every label of its department map is the \<open>Department\<close>
  value of some row, as a property name (\<open>undefined\<close> for a row without the column);
  every row whose label is not \<open>__proto__\<close> finds an entry under its own label, with a
  positive count; and when every row has the column, that count is the number of rows with
  the same value.
\<close>

theorem department_label_verbatim:
  "csvDepartment None = ''Unknown Department''
   \<and> csvDepartment (Some []) = ''Unknown Department''
   \<and> (generateAnalysis (Some rs) = Inr a \<longrightarrow>
        fst ` set (departmentStats a) \<subseteq> key_of_dept ` dept_of ` set rs
        \<and> (\<forall>r\<in>set rs. key_of_dept (dept_of r) \<noteq> ''__proto__'' \<longrightarrow>
             (\<exists>st. map_of (departmentStats a) (key_of_dept (dept_of r)) = Some st
                \<and> 0 < totalResponses st
                \<and> ((\<forall>r'\<in>set rs. dept_of r' \<noteq> None) \<longrightarrow>
                     totalResponses st = length (filter (\<lambda>r'. dept_of r' = dept_of r) rs)))))"
proof -
  have g: "fst ` set (departmentStats a) \<subseteq> key_of_dept ` dept_of ` set rs
        \<and> (\<forall>r\<in>set rs. key_of_dept (dept_of r) \<noteq> ''__proto__'' \<longrightarrow>
             (\<exists>st. map_of (departmentStats a) (key_of_dept (dept_of r)) = Some st
                \<and> 0 < totalResponses st
                \<and> ((\<forall>r'\<in>set rs. dept_of r' \<noteq> None) \<longrightarrow>
                     totalResponses st = length (filter (\<lambda>r'. dept_of r' = dept_of r) rs))))"
    if a: "generateAnalysis (Some rs) = Inr a"
  proof -
    let ?D = "dept_of ` set rs"
    from a have loop: "deptLoop rs (new_Set (map dept_of rs)) [] = Inr (departmentStats a)"
      by (auto elim: generateAnalysis_Inr)
    have keys: "fst ` set (departmentStats a) \<subseteq> key_of_dept ` ?D"
      using deptLoop_keys_sub[OF loop] by (simp add: set_new_Set)
    have e0: "\<exists>d\<in>?D. k = key_of_dept d
        \<and> totalResponses st = length (filter (\<lambda>r. dept_of r = d) rs)"
      if "(k, st) \<in> set []" for k and st :: department_stats
      using that by simp
    have sub: "set (new_Set (map dept_of rs)) \<subseteq> ?D" by (simp add: set_new_Set)
    have "\<exists>st. map_of (departmentStats a) (key_of_dept (dept_of r)) = Some st
              \<and> 0 < totalResponses st
              \<and> ((\<forall>r'\<in>set rs. dept_of r' \<noteq> None) \<longrightarrow>
                   totalResponses st = length (filter (\<lambda>r'. dept_of r' = dept_of r) rs))"
      if r: "r \<in> set rs" and np: "key_of_dept (dept_of r) \<noteq> ''__proto__''" for r
    proof -
      from r np have "key_of_dept (dept_of r)
          \<in> key_of_dept ` set (new_Set (map dept_of rs)) - {''__proto__''}"
        by (simp add: set_new_Set)
      with deptLoop_keys_sup[OF loop] have "key_of_dept (dept_of r) \<in> fst ` set (departmentStats a)"
        by blast
      then obtain st where st: "map_of (departmentStats a) (key_of_dept (dept_of r)) = Some st"
        by (metis domD dom_map_of_conv_image_fst)
      then have mem: "(key_of_dept (dept_of r), st) \<in> set (departmentStats a)" by (rule map_of_SomeD)
      from deptLoop_counts[OF loop e0 sub mem]
      obtain d where d: "d \<in> ?D" "key_of_dept (dept_of r) = key_of_dept d"
        "totalResponses st = length (filter (\<lambda>r. dept_of r = d) rs)" by blast
      from d(1) obtain r0 where "r0 \<in> set rs" "dept_of r0 = d" by auto
      then have "filter (\<lambda>r. dept_of r = d) rs \<noteq> []" by (auto simp: filter_empty_conv)
      with d(3) have pos: "0 < totalResponses st" by simp
      have "totalResponses st = length (filter (\<lambda>r'. dept_of r' = dept_of r) rs)"
        if "\<forall>r'\<in>set rs. dept_of r' \<noteq> None"
      proof -
        from that have "inj_on key_of_dept ?D" by (intro key_of_dept_inj) auto
        with d(1,2) r have "dept_of r = d" by (auto dest: inj_onD)
        with d(3) show ?thesis by simp
      qed
      with st pos show ?thesis by blast
    qed
    with keys show ?thesis by blast
  qed
  have "csvDepartment None = ''Unknown Department''" "csvDepartment (Some []) = ''Unknown Department''"
    by (simp_all add: csvDepartment_def)
  with g show ?thesis by blast
qed

text \<open>A row as the exporter writes it for a missing department is grouped under that label.\<close>

theorem department_label_verbatim_witness:
  "generateAnalysis (Some [ [(''Department'', csvDepartment None)] ])
     = Inr \<lparr>overview = \<lparr>totalResponses_ov = 1, numberOfDepartments = 1,
                         averageSatisfaction = ''0%'', averageDissatisfaction = ''0%''\<rparr>,
            departmentStats =
              [(''Unknown Department'', \<lparr>totalResponses = 1, questionAnalysis = []\<rparr>)]\<rparr>
   \<and> key_of_dept (dept_of [(''Department'', csvDepartment None)]) = ''Unknown Department''
   \<and> (\<exists>st. map_of [(''Unknown Department'', \<lparr>totalResponses = 1, questionAnalysis = []\<rparr>)]
              ''Unknown Department'' = Some st \<and> 0 < totalResponses st)"
proof -
  let ?r = "[(''Department'', csvDepartment None)]"
  let ?A = "\<lparr>overview = \<lparr>totalResponses_ov = 1, numberOfDepartments = 1,
                         averageSatisfaction = ''0%'', averageDissatisfaction = ''0%''\<rparr>,
            departmentStats =
              [(''Unknown Department'', \<lparr>totalResponses = 1, questionAnalysis = []\<rparr>)]\<rparr>"
  have h: "generateAnalysis (Some [?r]) = Inr ?A"
    by code_simp
  have k: "key_of_dept (dept_of ?r) = ''Unknown Department''"
    by (simp add: key_of_dept_def dept_of_def csvDepartment_def)
  have m: "?r \<in> set [?r]" by simp
  have np: "key_of_dept (dept_of ?r) \<noteq> ''__proto__''" by (simp add: k)
  from department_label_verbatim [of "[?r]" ?A] h
  have "\<forall>r\<in>set [?r]. key_of_dept (dept_of r) \<noteq> ''__proto__'' \<longrightarrow>
         (\<exists>st. map_of (departmentStats ?A) (key_of_dept (dept_of r)) = Some st
            \<and> 0 < totalResponses st
            \<and> ((\<forall>r'\<in>set [?r]. dept_of r' \<noteq> None) \<longrightarrow>
                 totalResponses st = length (filter (\<lambda>r'. dept_of r' = dept_of r) [?r])))"
    by blast
  with m np have "\<exists>st. map_of (departmentStats ?A) (key_of_dept (dept_of ?r)) = Some st
            \<and> 0 < totalResponses st"
    by blast
  then have "\<exists>st. map_of [(''Unknown Department'', \<lparr>totalResponses = 1, questionAnalysis = []\<rparr>)]
              ''Unknown Department'' = Some st \<and> 0 < totalResponses st"
    by (simp only: k analysis.simps)
  with h k show ?thesis by blast
qed

subsection \<open>Department counts and the overview total\<close>

text \<open>
  The counts of the departments add up to the overview total when no row has the
  department \<open>__proto__\<close> and it is not the case that one row has no \<open>Department\<close> column
  while another has the text \<open>undefined\<close> in it.
\<close>

lemma department_counts_sum_unless_key_clash:
  assumes "generateAnalysis (Some rs) = Inr a"
    and "\<not> (None \<in> dept_of ` set rs \<and> Some ''undefined'' \<in> dept_of ` set rs)"
    and "Some ''__proto__'' \<notin> dept_of ` set rs"
  shows "sum_list (map (\<lambda>e. totalResponses (snd e)) (departmentStats a))
         = totalResponses_ov (overview a)"
proof -
  let ?ds = "new_Set (map dept_of rs)"
  from assms(1) have loop: "deptLoop rs ?ds [] = Inr (departmentStats a)"
    and tot: "totalResponses_ov (overview a) = length rs"
    by (auto elim: generateAnalysis_Inr)
  have "inj_on key_of_dept (set ?ds)"
    using assms(2) by (intro key_of_dept_inj) (simp add: set_new_Set)
  then have dist: "distinct (map key_of_dept ?ds)"
    by (simp add: distinct_map distinct_new_Set)
  have np: "''__proto__'' \<notin> key_of_dept ` set ?ds"
  proof
    assume "''__proto__'' \<in> key_of_dept ` set ?ds"
    then have "''__proto__'' \<in> key_of_dept ` (dept_of ` set rs)" by (simp add: set_new_Set)
    then obtain d where d: "d \<in> dept_of ` set rs" "''__proto__'' = key_of_dept d"
      by (rule imageE)
    then have "d = Some ''__proto__''" by (cases d) (auto simp: key_of_dept_def)
    with d(1) assms(3) show False by simp
  qed
  from deptLoop_totals[OF loop dist _ np]
  have "map (\<lambda>e. totalResponses (snd e)) (departmentStats a)
        = map (\<lambda>d. length (filter (\<lambda>r. dept_of r = d) rs)) ?ds" by simp
  moreover have "sum_list (map (\<lambda>d. length (filter (\<lambda>r. dept_of r = d) rs)) ?ds) = length rs"
    by (rule sum_group_sizes) (simp_all add: distinct_new_Set set_new_Set)
  ultimately show ?thesis using tot by simp
qed

text \<open>
  Claim C6, at the failing input. A row without the \<open>Department\<close> column and a row whose
  department is the text \<open>undefined\<close> are two departments for the overview, but both are
  stored under the property \<open>undefined\<close>, the second replacing the first: the department
  map has one entry, with count 1, while the overview total is 2.
\<close>

theorem department_counts_missing_vs_undefined:
  "generateAnalysis
     (Some [ [(''Survey Title'', ''A'')],
            [(''Survey Title'', ''B''), (''Department'', ''undefined'')] ])
     = Inr \<lparr>overview = \<lparr>totalResponses_ov = 2, numberOfDepartments = 2,
                         averageSatisfaction = ''0%'', averageDissatisfaction = ''0%''\<rparr>,
            departmentStats =
              [(''undefined'', \<lparr>totalResponses = 1, questionAnalysis = []\<rparr>)]\<rparr>"
  by code_simp

subsection \<open>Tallying answers: counts against the response count\<close>

lemma obj_set_next_count:
  assumes "all_numbers m" "k \<notin> set proto_names"
  shows "sum_list (map (\<lambda>e. count_nat (snd e)) (obj_set k (next_count k m) m))
           = sum_list (map (\<lambda>e. count_nat (snd e)) m) + 1
         \<and> all_numbers (obj_set k (next_count k m) m)"
  using assms
proof (induction m)
  case Nil
  then show ?case by (simp add: next_count_def all_numbers_def count_nat_def)
next
  case (Cons p ps)
  obtain j c where p: "p = (j, c)" by (cases p)
  from Cons.prems(1) obtain n where c: "c = Num n" by (auto simp: all_numbers_def p)
  from Cons.prems(1) have ps: "all_numbers ps" by (simp add: all_numbers_def)
  show ?case
  proof (cases "j = k")
    case True
    then show ?thesis
      using ps by (simp add: p c next_count_def bump_def all_numbers_def count_nat_def)
  next
    case False
    then have nc: "next_count k ((j, Num n) # ps) = next_count k ps"
      by (auto simp: next_count_def)
    from Cons.IH[OF ps Cons.prems(2)] False show ?thesis
      by (simp add: nc p c all_numbers_def count_nat_def)
  qed
qed

lemma not_proto_assign: "k \<notin> set proto_names \<Longrightarrow> obj_assign k v m = obj_set k v m"
  by (auto simp: obj_assign_def proto_names_def)

lemma incr_numbers:
  assumes "all_numbers m" "k \<notin> set proto_names"
  shows "sum_list (map (\<lambda>e. count_nat (snd e)) (incr k m))
           = sum_list (map (\<lambda>e. count_nat (snd e)) m) + 1"
    and "all_numbers (incr k m)"
  using obj_set_next_count[OF assms] assms(2) by (simp_all add: incr_def not_proto_assign)

lemma incr_define_numbers:
  assumes "all_numbers m" "k \<notin> set proto_names"
  shows "sum_list (map (\<lambda>e. count_nat (snd e)) (incr_define k m))
           = sum_list (map (\<lambda>e. count_nat (snd e)) m) + 1"
    and "all_numbers (incr_define k m)"
  using obj_set_next_count[OF assms] by (simp_all add: incr_define_def)

lemma fold_incr_numbers:
  "all_numbers m \<Longrightarrow> \<forall>k\<in>set ks. k \<notin> set proto_names \<Longrightarrow>
   sum_list (map (\<lambda>e. count_nat (snd e)) (fold incr ks m))
     = sum_list (map (\<lambda>e. count_nat (snd e)) m) + length ks
   \<and> all_numbers (fold incr ks m)"
proof (induction ks arbitrary: m)
  case Nil
  then show ?case by simp
next
  case (Cons k ks)
  from Cons.prems have k: "k \<notin> set proto_names" and ks: "\<forall>k\<in>set ks. k \<notin> set proto_names"
    by simp_all
  from incr_numbers[OF Cons.prems(1) k] Cons.IH[OF _ ks, of "incr k m"]
  show ?case by simp
qed

lemma length_split_on: "length (split_on d s) = Suc (length (filter (\<lambda>c. c = d) s))"
  by (induction s) (auto split: list.splits)

lemma comma_splits_in_two:
  assumes "includes_char a CHR '',''" shows "2 \<le> length (split_on CHR '','' a)"
proof -
  from assms have "filter (\<lambda>c. c = CHR '','') a \<noteq> []"
    by (auto simp: includes_char_def filter_empty_conv)
  then show ?thesis
    by (cases "filter (\<lambda>c. c = CHR '','') a") (simp_all add: length_split_on)
qed

lemma responseCount_tally: "responseCount (tally q a qa) = responseCount qa + 1"
  by (simp add: tally_def Let_def)

lemma qa_type_tally:
  "qa_type (tally q a qa) =
     (if isStarRatingQuestion q [a] then Some StarRating
      else if includes_char a CHR '','' then Some Checkbox
      else if qa_type qa = None then Some (if isMCQQuestion [a] then MCQ else Text)
      else qa_type qa)"
  by (simp add: tally_def Let_def)

lemma counts_tally:
  assumes "plain_answer a" "all_numbers (responses qa)"
  shows "sum_counts (tally q a qa) =
     sum_counts qa + (if \<not> isStarRatingQuestion q [a] \<and> includes_char a CHR '',''
                      then length (split_on CHR '','' a) else 1)"
    and "all_numbers (responses (tally q a qa))"
proof -
  from assms(1) have a: "a \<notin> set proto_names"
    and opts: "\<forall>k\<in>set (map trim (split_on CHR '','' a)). k \<notin> set proto_names"
    by (simp_all add: plain_answer_def)
  note f = fold_incr_numbers[OF assms(2) opts]
  show "sum_counts (tally q a qa) =
     sum_counts qa + (if \<not> isStarRatingQuestion q [a] \<and> includes_char a CHR '',''
                      then length (split_on CHR '','' a) else 1)"
    using f incr_numbers(1)[OF assms(2) a] incr_define_numbers(1)[OF assms(2) a]
    by (simp add: tally_def Let_def sum_counts_def)
  show "all_numbers (responses (tally q a qa))"
    using f incr_numbers(2)[OF assms(2) a] incr_define_numbers(2)[OF assms(2) a]
    by (simp add: tally_def Let_def)
qed

lemma init_entry_facts:
  "responseCount (init_entry q a) = 0" "sum_counts (init_entry q a) = 0"
  "qa_type (init_entry q a) = Some (determineQuestionType a)"
  "all_numbers (responses (init_entry q a))"
  by (simp_all add: init_entry_def sum_counts_def all_numbers_def)

lemma determine_Checkbox_comma:
  "determineQuestionType a = Checkbox \<Longrightarrow> includes_char a CHR '',''"
  by (auto simp: determineQuestionType_def split: if_splits)

lemma analyzeKey_preserves:
  assumes step: "\<And>q a qa. A a \<Longrightarrow> P qa \<Longrightarrow> P (tally q a qa)"
    and init: "\<And>q a. A a \<Longrightarrow> P (tally q a (init_entry q a))"
    and ans: "\<And>k v. (k, v) \<in> set response \<Longrightarrow> startsWith k ''Answer'' \<Longrightarrow> A v"
    and inv: "\<And>k e. (k, e) \<in> set m \<Longrightarrow> P e"
    and res: "analyzeKey response kv m = Inr m'"
    and mem: "(n, x) \<in> set m'"
  shows "P x"
proof (cases "startsWith (fst kv) ''Question''")
  case False
  with res have "m' = m" by (auto simp: analyzeKey_def split: prod.splits)
  with inv mem show ?thesis by simp
next
  case True
  obtain key q where kv: "kv = (key, q)" by (cases kv)
  with True res obtain answer where
    a: "map_of response (''Answer '' @ qNum_of key) = Some answer"
    and m': "m' = obj_set (qNum_of key)
        (tally q answer (case map_of m (qNum_of key) of None \<Rightarrow> init_entry q answer | Some e \<Rightarrow> e)) m"
    by (auto simp: analyzeKey_def Let_def split: option.splits if_splits)
  let ?new = "tally q answer (case map_of m (qNum_of key) of None \<Rightarrow> init_entry q answer | Some e \<Rightarrow> e)"
  from a have "(''Answer '' @ qNum_of key, answer) \<in> set response" by (rule map_of_SomeD)
  moreover have "startsWith (''Answer '' @ qNum_of key) ''Answer''" by (simp add: startsWith_def)
  ultimately have A: "A answer" by (rule ans)
  have new: "P ?new"
  proof (cases "map_of m (qNum_of key)")
    case None
    with init[OF A] show ?thesis by simp
  next
    case (Some e)
    then have "(qNum_of key, e) \<in> set m" by (rule map_of_SomeD)
    then have "P e" by (rule inv)
    with step[OF A] Some show ?thesis by simp
  qed
  from mem m' have "(n, x) \<in> set (obj_set (qNum_of key) ?new m)" by simp
  with set_obj_set have "(n, x) \<in> insert (qNum_of key, ?new) (set m)" by (rule subsetD)
  then consider "x = ?new" | "(n, x) \<in> set m" by auto
  then show ?thesis
  proof cases
    case 1
    with new show ?thesis by simp
  next
    case 2
    then show ?thesis by (rule inv)
  qed
qed

lemma analyzeKeys_preserves:
  assumes step: "\<And>q a qa. A a \<Longrightarrow> P qa \<Longrightarrow> P (tally q a qa)"
    and init: "\<And>q a. A a \<Longrightarrow> P (tally q a (init_entry q a))"
    and ans: "\<And>k v. (k, v) \<in> set response \<Longrightarrow> startsWith k ''Answer'' \<Longrightarrow> A v"
  shows "(\<And>k e. (k, e) \<in> set m \<Longrightarrow> P e) \<Longrightarrow> analyzeKeys response kvs m = Inr m' \<Longrightarrow>
         (n, x) \<in> set m' \<Longrightarrow> P x"
proof (induction kvs arbitrary: m)
  case Nil
  then show ?case by simp
next
  case (Cons kv kvs)
  from Cons.prems(2) obtain m1 where k: "analyzeKey response kv m = Inr m1"
    and r: "analyzeKeys response kvs m1 = Inr m'"
    by (auto split: sum.splits)
  have "P e" if "(j, e) \<in> set m1" for j e
    using step init ans Cons.prems(1) k that by (rule analyzeKey_preserves)
  then show ?case using r Cons.prems(3) by (rule Cons.IH)
qed

lemma analyzeResponses_preserves:
  assumes step: "\<And>q a qa. A a \<Longrightarrow> P qa \<Longrightarrow> P (tally q a qa)"
    and init: "\<And>q a. A a \<Longrightarrow> P (tally q a (init_entry q a))"
  shows "(\<And>r k v. r \<in> set rs \<Longrightarrow> (k, v) \<in> set r \<Longrightarrow> startsWith k ''Answer'' \<Longrightarrow> A v) \<Longrightarrow>
         (\<And>k e. (k, e) \<in> set m \<Longrightarrow> P e) \<Longrightarrow>
         analyzeResponses rs m = Inr m' \<Longrightarrow> (n, x) \<in> set m' \<Longrightarrow> P x"
proof (induction rs arbitrary: m)
  case Nil
  then show ?case by simp
next
  case (Cons r rs)
  from Cons.prems(3) obtain m1 where k: "analyzeKeys r r m = Inr m1"
    and rest: "analyzeResponses rs m1 = Inr m'"
    by (auto split: sum.splits)
  have ans: "A v" if "(j, v) \<in> set r" "startsWith j ''Answer''" for j v
    using Cons.prems(1)[of r j v] that by simp
  have m1: "P e" if "(j, e) \<in> set m1" for j e
    using step init ans Cons.prems(2) k that by (rule analyzeKeys_preserves)
  have ans': "A v" if "r' \<in> set rs" "(j, v) \<in> set r'" "startsWith j ''Answer''" for r' j v
    using Cons.prems(1)[of r' j v] that by simp
  show ?case using ans' m1 rest Cons.prems(4) by (rule Cons.IH)
qed

lemma deptLoop_preserves:
  assumes step: "\<And>q a qa. A a \<Longrightarrow> P qa \<Longrightarrow> P (tally q a qa)"
    and init: "\<And>q a. A a \<Longrightarrow> P (tally q a (init_entry q a))"
    and ans: "\<And>r k v. r \<in> set rs \<Longrightarrow> (k, v) \<in> set r \<Longrightarrow> startsWith k ''Answer'' \<Longrightarrow> A v"
  shows "(\<And>k st j e. (k, st) \<in> set acc \<Longrightarrow> (j, e) \<in> set (questionAnalysis st) \<Longrightarrow> P e) \<Longrightarrow>
         deptLoop rs ds acc = Inr res \<Longrightarrow>
         (d, st) \<in> set res \<Longrightarrow> (n, x) \<in> set (questionAnalysis st) \<Longrightarrow> P x"
proof (induction ds arbitrary: acc)
  case Nil
  then show ?case by simp
next
  case (Cons d' ds)
  let ?rs = "filter (\<lambda>r. dept_of r = d') rs"
  from Cons.prems(2) obtain qa where
    qa: "analyzeResponses ?rs [] = Inr qa"
    and rest: "deptLoop rs ds (obj_assign (key_of_dept d')
        \<lparr>totalResponses = length ?rs, questionAnalysis = qa\<rparr> acc) = Inr res"
    by (auto simp: Let_def split: sum.splits)
  let ?new = "\<lparr>totalResponses = length ?rs, questionAnalysis = qa\<rparr>"
  have ans': "A v" if "r \<in> set ?rs" "(k, v) \<in> set r" "startsWith k ''Answer''" for r k v
    using ans[of r k v] that by simp
  have e0: "P e" if "(k, e) \<in> set ([]::qmap)" for k e
    using that by simp
  have q: "P e" if "(j, e) \<in> set qa" for j e
    using step init ans' e0 qa that by (rule analyzeResponses_preserves)
  have acc': "P e" if m: "(k, s) \<in> set (obj_assign (key_of_dept d') ?new acc)"
    and e: "(j, e) \<in> set (questionAnalysis s)" for k s j e
  proof -
    from m set_obj_assign have "(k, s) \<in> insert (key_of_dept d', ?new) (set acc)" by (rule rev_subsetD)
    then consider "s = ?new" | "(k, s) \<in> set acc" by auto
    then show ?thesis
    proof cases
      case 1
      with e have "(j, e) \<in> set qa" by simp
      then show ?thesis by (rule q)
    next
      case 2
      then show ?thesis using e by (rule Cons.prems(1))
    qed
  qed
  show ?case using acc' rest Cons.prems(3,4) by (rule Cons.IH)
qed

lemma tally_counts_ok:
  assumes "plain_answer a" "all_numbers (responses qa)"
    and "qa_type qa \<noteq> None" "responseCount qa \<le> sum_counts qa"
    and "qa_type qa = Some MCQ \<or> qa_type qa = Some Text \<longrightarrow> sum_counts qa = responseCount qa"
    and "qa_type qa = Some Checkbox \<longrightarrow> responseCount qa < sum_counts qa"
  shows "all_numbers (responses (tally q a qa))
       \<and> qa_type (tally q a qa) \<noteq> None \<and> responseCount (tally q a qa) \<le> sum_counts (tally q a qa)
       \<and> (qa_type (tally q a qa) = Some MCQ \<or> qa_type (tally q a qa) = Some Text
            \<longrightarrow> sum_counts (tally q a qa) = responseCount (tally q a qa))
       \<and> (qa_type (tally q a qa) = Some Checkbox
            \<longrightarrow> responseCount (tally q a qa) < sum_counts (tally q a qa))"
proof (cases "\<not> isStarRatingQuestion q [a] \<and> includes_char a CHR '',''")
  case True
  then have "2 \<le> length (split_on CHR '','' a)" by (simp add: comma_splits_in_two)
  with True assms(3-6) counts_tally[OF assms(1,2), of q] show ?thesis
    by (simp add: qa_type_tally responseCount_tally)
next
  case False
  with assms(3-6) counts_tally[OF assms(1,2), of q] show ?thesis
    by (auto simp: qa_type_tally responseCount_tally)
qed

lemma tally_init_counts_ok:
  assumes "plain_answer a"
  shows "all_numbers (responses (tally q a (init_entry q a)))
   \<and> qa_type (tally q a (init_entry q a)) \<noteq> None
   \<and> responseCount (tally q a (init_entry q a)) \<le> sum_counts (tally q a (init_entry q a))
   \<and> (qa_type (tally q a (init_entry q a)) = Some MCQ \<or> qa_type (tally q a (init_entry q a)) = Some Text
        \<longrightarrow> sum_counts (tally q a (init_entry q a)) = responseCount (tally q a (init_entry q a)))
   \<and> (qa_type (tally q a (init_entry q a)) = Some Checkbox
        \<longrightarrow> responseCount (tally q a (init_entry q a)) < sum_counts (tally q a (init_entry q a)))"
proof (cases "\<not> isStarRatingQuestion q [a] \<and> includes_char a CHR '',''")
  case True
  then have "2 \<le> length (split_on CHR '','' a)" by (simp add: comma_splits_in_two)
  with True counts_tally[OF assms init_entry_facts(4), of q q] show ?thesis
    by (simp add: qa_type_tally responseCount_tally init_entry_facts)
next
  case False
  with counts_tally[OF assms init_entry_facts(4), of q q] show ?thesis
    by (auto simp: qa_type_tally responseCount_tally init_entry_facts
        dest: determine_Checkbox_comma)
qed

lemma tally_no_comma:
  assumes "plain_answer a \<and> \<not> includes_char a CHR '',''"
    and "all_numbers (responses qa) \<and> sum_counts qa = responseCount qa"
  shows "all_numbers (responses (tally q a qa))
         \<and> sum_counts (tally q a qa) = responseCount (tally q a qa)"
  using assms counts_tally[of a qa q] by (simp add: responseCount_tally)

lemma tally_init_no_comma:
  assumes "plain_answer a \<and> \<not> includes_char a CHR '',''"
  shows "all_numbers (responses (tally q a (init_entry q a)))
         \<and> sum_counts (tally q a (init_entry q a)) = responseCount (tally q a (init_entry q a))"
  using assms counts_tally[OF _ init_entry_facts(4), of a q q]
  by (simp add: responseCount_tally init_entry_facts)

text \<open>
  Claim C7, against the code. A checkbox answer followed by a star answer on the same
  question leaves the category \<open>StarRating\<close> with three counted selections for two
  responses.
\<close>

theorem star_rating_sum_exceeds_counterexample:
  "generateAnalysis
     (Some [ [(''Department'', ''IT''), (''Question 1'', ''Rate''), (''Answer 1'', ''a, b'')],
            [(''Department'', ''IT''), (''Question 1'', ''Rate''), (''Answer 1'', ''5 stars'')] ])
     = Inr \<lparr>overview = \<lparr>totalResponses_ov = 2, numberOfDepartments = 1,
                         averageSatisfaction = ''100%'', averageDissatisfaction = ''0%''\<rparr>,
            departmentStats =
              [(''IT'', \<lparr>totalResponses = 2,
                        questionAnalysis =
                          [(''1'', \<lparr>question = ''Rate'',
                                   responses = [(''a'', Num 1), (''b'', Num 1), (''5 stars'', Num 1)],
                                   responseCount = 2, qa_type = Some StarRating\<rparr>)]\<rparr>)]\<rparr>
   \<and> sum_counts \<lparr>question = ''Rate'',
                  responses = [(''a'', Num 1), (''b'', Num 1), (''5 stars'', Num 1)],
                  responseCount = 2, qa_type = Some StarRating\<rparr> = 3"
  by code_simp

text \<open>
  Claim C7, amended. Let no answer cell of the input rows, and none of its comma-separated
  options, be the name of a property that every object inherits (\<open>constructor\<close>,
  \<open>toString\<close>, \<open>__proto__\<close>, ...). Then for every question analysis the aggregator
  produces: every stored count is a number; the sum of the occurrence counts is at least
  the response count; it equals the response count when the final category is \<open>MCQ\<close> (or
  \<open>Text\<close>); it is strictly larger when the final category is \<open>Checkbox\<close>; and it equals
  the response count for every category, \<open>StarRating\<close> included, when no answer cell of
  the input rows contains a comma.
\<close>

theorem answer_counts_vs_response_count:
  assumes "generateAnalysis (Some rs) = Inr a"
    and "(d, st) \<in> set (departmentStats a)" and "(n, qa) \<in> set (questionAnalysis st)"
    and "\<forall>r\<in>set rs. \<forall>kv\<in>set r. startsWith (fst kv) ''Answer'' \<longrightarrow> plain_answer (snd kv)"
  shows "all_numbers (responses qa)
       \<and> responseCount qa \<le> sum_counts qa
       \<and> (qa_type qa = Some MCQ \<or> qa_type qa = Some Text \<longrightarrow> sum_counts qa = responseCount qa)
       \<and> (qa_type qa = Some Checkbox \<longrightarrow> responseCount qa < sum_counts qa)
       \<and> ((\<forall>r\<in>set rs. \<forall>kv\<in>set r. startsWith (fst kv) ''Answer''
              \<longrightarrow> \<not> includes_char (snd kv) CHR '','')
            \<longrightarrow> sum_counts qa = responseCount qa)"
proof -
  from assms(1) have loop: "deptLoop rs (new_Set (map dept_of rs)) [] = Inr (departmentStats a)"
    by (auto elim: generateAnalysis_Inr)
  let ?P = "\<lambda>qa. all_numbers (responses qa) \<and> qa_type qa \<noteq> None \<and> responseCount qa \<le> sum_counts qa
       \<and> (qa_type qa = Some MCQ \<or> qa_type qa = Some Text \<longrightarrow> sum_counts qa = responseCount qa)
       \<and> (qa_type qa = Some Checkbox \<longrightarrow> responseCount qa < sum_counts qa)"
  have e0: "?P e" if "(k, s) \<in> set []" "(j, e) \<in> set (questionAnalysis s)"
    for k and s :: department_stats and j e
    using that by simp
  have "?P qa"
  proof (rule deptLoop_preserves[where A = plain_answer and P = ?P, OF _ _ _ e0 loop assms(2,3)])
    show "?P (tally q b x)" if "plain_answer b" "?P x" for q b x
      using that tally_counts_ok[of b x q] by blast
    show "?P (tally q b (init_entry q b))" if "plain_answer b" for q b
      using that by (rule tally_init_counts_ok)
    show "plain_answer v" if "r \<in> set rs" "(k, v) \<in> set r" "startsWith k ''Answer''" for r k v
      using assms(4) that by force
  qed
  moreover have "sum_counts qa = responseCount qa"
    if nc: "\<forall>r\<in>set rs. \<forall>kv\<in>set r. startsWith (fst kv) ''Answer''
              \<longrightarrow> \<not> includes_char (snd kv) CHR '',''"
  proof -
    let ?Q = "\<lambda>qa. all_numbers (responses qa) \<and> sum_counts qa = responseCount qa"
    have e1: "?Q e" if "(k, s) \<in> set []" "(j, e) \<in> set (questionAnalysis s)"
      for k and s :: department_stats and j e
      using that by simp
    have "?Q qa"
    proof (rule deptLoop_preserves[where A = "\<lambda>v. plain_answer v \<and> \<not> includes_char v CHR '',''"
          and P = ?Q, OF _ _ _ e1 loop assms(2,3)])
      show "?Q (tally q b x)" if "plain_answer b \<and> \<not> includes_char b CHR '',''" "?Q x" for q b x
        using that by (rule tally_no_comma)
      show "?Q (tally q b (init_entry q b))" if "plain_answer b \<and> \<not> includes_char b CHR '',''" for q b
        using that by (rule tally_init_no_comma)
      show "plain_answer v \<and> \<not> includes_char v CHR '',''"
        if "r \<in> set rs" "(k, v) \<in> set r" "startsWith k ''Answer''" for r k v
        using nc assms(4) that by force
    qed
    then show ?thesis by simp
  qed
  ultimately show ?thesis by blast
qed

text \<open>
  Two star answers on one question whose text contains a comma: category \<open>StarRating\<close>,
  two counts for two responses.
\<close>

theorem answer_counts_vs_response_count_witness:
  "generateAnalysis
     (Some [ [(''Department'', ''IT''), (''Question 1'', ''Mood, today?''), (''Answer 1'', ''5 stars'')],
            [(''Department'', ''IT''), (''Question 1'', ''Mood, today?''), (''Answer 1'', ''4 stars'')] ])
     = Inr \<lparr>overview = \<lparr>totalResponses_ov = 2, numberOfDepartments = 1,
                         averageSatisfaction = ''90%'', averageDissatisfaction = ''0%''\<rparr>,
            departmentStats =
              [(''IT'', \<lparr>totalResponses = 2,
                        questionAnalysis =
                          [(''1'', \<lparr>question = ''Mood, today?'',
                                   responses = [(''5 stars'', Num 1), (''4 stars'', Num 1)],
                                   responseCount = 2, qa_type = Some StarRating\<rparr>)]\<rparr>)]\<rparr>
   \<and> sum_counts \<lparr>question = ''Mood, today?'',
                  responses = [(''5 stars'', Num 1), (''4 stars'', Num 1)],
                  responseCount = 2, qa_type = Some StarRating\<rparr> = 2"
proof -
  let ?R = "[ [(''Department'', ''IT''), (''Question 1'', ''Mood, today?''), (''Answer 1'', ''5 stars'')],
            [(''Department'', ''IT''), (''Question 1'', ''Mood, today?''), (''Answer 1'', ''4 stars'')] ]"
  let ?QA = "\<lparr>question = ''Mood, today?'',
                  responses = [(''5 stars'', Num 1), (''4 stars'', Num 1)],
                  responseCount = 2, qa_type = Some StarRating\<rparr>"
  let ?ST = "\<lparr>totalResponses = 2, questionAnalysis = [(''1'', ?QA)]\<rparr>"
  let ?A = "\<lparr>overview = \<lparr>totalResponses_ov = 2, numberOfDepartments = 1,
                         averageSatisfaction = ''90%'', averageDissatisfaction = ''0%''\<rparr>,
            departmentStats = [(''IT'', ?ST)]\<rparr>"
  have h1: "generateAnalysis (Some ?R) = Inr ?A" by code_simp
  have h2: "(''IT'', ?ST) \<in> set (departmentStats ?A)" by simp
  have h3: "(''1'', ?QA) \<in> set (questionAnalysis ?ST)" by simp
  have h4: "\<forall>r\<in>set ?R. \<forall>kv\<in>set r. startsWith (fst kv) ''Answer'' \<longrightarrow> plain_answer (snd kv)"
    by code_simp
  have h5: "\<forall>r\<in>set ?R. \<forall>kv\<in>set r. startsWith (fst kv) ''Answer''
              \<longrightarrow> \<not> includes_char (snd kv) CHR '',''"
    by code_simp
  from answer_counts_vs_response_count [OF h1 h2 h3 h4] h5
  have "sum_counts ?QA = responseCount ?QA" by blast
  then have "sum_counts ?QA = 2" by simp
  with h1 show ?thesis by blast
qed

subsection \<open>The checkbox example\<close>

text \<open>
  Claim C8. The answers \<open>Gym, Lunch\<close> and \<open>Lunch\<close> on one question give the counts
  \<open>Gym: 1\<close>, \<open>Lunch: 2\<close> with response count 2 and category \<open>Checkbox\<close>; the rendered
  percentages divide by the response count 2, so \<open>Lunch\<close> is rendered with 100.0% and
  \<open>Gym\<close> with 50.0%.
\<close>

theorem checkbox_gym_lunch_example:
  "generateAnalysis
     (Some [ [(''Department'', ''IT''), (''Question 1'', ''Perks?''), (''Answer 1'', ''Gym, Lunch'')],
            [(''Department'', ''IT''), (''Question 1'', ''Perks?''), (''Answer 1'', ''Lunch'')] ])
     = Inr \<lparr>overview = \<lparr>totalResponses_ov = 2, numberOfDepartments = 1,
                         averageSatisfaction = ''0%'', averageDissatisfaction = ''0%''\<rparr>,
            departmentStats =
              [(''IT'', \<lparr>totalResponses = 2,
                        questionAnalysis =
                          [(''1'', \<lparr>question = ''Perks?'',
                                   responses = [(''Gym'', Num 1), (''Lunch'', Num 2)],
                                   responseCount = 2, qa_type = Some Checkbox\<rparr>)]\<rparr>)]\<rparr>
   \<and> renderQuestion \<lparr>question = ''Perks?'', responses = [(''Gym'', Num 1), (''Lunch'', Num 2)],
                      responseCount = 2, qa_type = Some Checkbox\<rparr>
     = [''Perks?'', ''Gym: 1 selections (50.0%)'', ''Lunch: 2 selections (100.0%)'',
        ''Total responses for this question: 2'']
   \<and> percentage (Num 2) 2 = ''100.0''"
  by code_simp

subsection \<open>Rendering a star rating question\<close>


lemma parsed_Cons:
  "parsed_star_total (e # rs) =
     (case parseInt_math (fst e) of None \<Rightarrow> 0 | Some s \<Rightarrow> s * int (count_nat (snd e)))
     + parsed_star_total rs"
  "parsed_count_total (e # rs) =
     (case parseInt_math (fst e) of None \<Rightarrow> 0 | Some s \<Rightarrow> count_nat (snd e))
     + parsed_count_total rs"
  "parsed_star_size (e # rs) =
     (case parseInt_math (fst e) of None \<Rightarrow> 0 | Some s \<Rightarrow> \<bar>s\<bar> * int (count_nat (snd e)))
     + parsed_star_size rs"
  by (simp_all add: parsed_star_total_def parsed_count_total_def parsed_star_size_def)



lemma parsed_count_total_pos:
  assumes "\<forall>e\<in>set rs. parseInt_math (fst e) \<noteq> None \<longrightarrow> (\<exists>c. snd e = Num c \<and> 0 < c)"
  shows "0 < parsed_count_total rs \<longleftrightarrow> (\<exists>e\<in>set rs. parseInt_math (fst e) \<noteq> None)"
  using assms
  by (induction rs) (auto simp: parsed_Cons count_nat_def parsed_count_total_def)









subsection \<open>Overwriting an established category\<close>

lemma starPattern_nonempty: "starPattern_test (trim a) \<Longrightarrow> a \<noteq> []"
  by (auto simp: starPattern_test_def trim_def)

lemma star_test_iff:
  "isStarRatingQuestion q [a] \<longleftrightarrow> q \<noteq> [] \<and> starPattern_test (trim a)"
  using starPattern_nonempty[of a] by (auto simp: isStarRatingQuestion_def)

lemma map_of_obj_set_same: "map_of (obj_set k v m) k = Some v"
  by (induction m) auto

text \<open>
  Claim C10, against the code. \<open>isStarRatingQuestion\<close> answers no when the question text is
  empty: on such a question a later answer \<open>5 stars\<close> does not overwrite the category
  \<open>Text\<close> set by the first answer.
\<close>

theorem empty_question_star_counterexample:
  "generateAnalysis
     (Some [ [(''Department'', ''IT''), (''Question 1'', []), (''Answer 1'', ''Good'')],
            [(''Department'', ''IT''), (''Question 1'', []), (''Answer 1'', ''5 stars'')] ])
     = Inr \<lparr>overview = \<lparr>totalResponses_ov = 2, numberOfDepartments = 1,
                         averageSatisfaction = ''0%'', averageDissatisfaction = ''0%''\<rparr>,
            departmentStats =
              [(''IT'', \<lparr>totalResponses = 2,
                        questionAnalysis =
                          [(''1'', \<lparr>question = [],
                                   responses = [(''Good'', Num 1), (''5 stars'', Num 1)],
                                   responseCount = 2, qa_type = Some Text\<rparr>)]\<rparr>)]\<rparr>
   \<and> starPattern_test (trim ''5 stars'')"
  by code_simp

text \<open>
  Claim C10, amended. A new entry is initialised with the category that
  \<open>determineQuestionType\<close> gives its first answer, and tallying that first answer leaves
  \<open>StarRating\<close> when the question text is not empty and the trimmed answer matches the
  anchored star pattern, else \<open>Checkbox\<close> when the answer contains a comma, else the
  initial category; this is the entry the aggregator stores for a question number seen for
  the first time. Every entry the aggregator has stored has its category set, and tallying
  a later answer on it sets the category to \<open>StarRating\<close> or \<open>Checkbox\<close> under the same
  two conditions and else leaves the established category as it is (also for a
  satisfaction label): the assignment guarded by an unset category is never reached.
\<close>

theorem category_overwrite_rules:
  "qa_type (init_entry q a) = Some (determineQuestionType a)
   \<and> qa_type (tally q a (init_entry q a)) =
       Some (if q \<noteq> [] \<and> starPattern_test (trim a) then StarRating
             else if includes_char a CHR '','' then Checkbox
             else determineQuestionType a)
   \<and> (startsWith key ''Question'' \<and> map_of response (''Answer '' @ qNum_of key) = Some a
        \<and> map_of m0 (qNum_of key) = None \<and> analyzeKey response (key, q) m0 = Inr m1
      \<longrightarrow> map_of m1 (qNum_of key) = Some (tally q a (init_entry q a)))
   \<and> (analyzeResponses rs [] = Inr m \<and> map_of m n = Some qa
      \<longrightarrow> (\<exists>t. qa_type qa = Some t
             \<and> qa_type (tally q a qa) =
                 Some (if q \<noteq> [] \<and> starPattern_test (trim a) then StarRating
                       else if includes_char a CHR '','' then Checkbox
                       else t)))"
proof -
  have i: "qa_type (init_entry q a) = Some (determineQuestionType a)"
    by (simp add: init_entry_def)
  have f: "qa_type (tally q a (init_entry q a)) =
       Some (if q \<noteq> [] \<and> starPattern_test (trim a) then StarRating
             else if includes_char a CHR '','' then Checkbox
             else determineQuestionType a)"
    by (simp add: qa_type_tally init_entry_facts(3) star_test_iff)
  have k: "map_of m1 (qNum_of key) = Some (tally q a (init_entry q a))"
    if "startsWith key ''Question''" "map_of response (''Answer '' @ qNum_of key) = Some a"
      "map_of m0 (qNum_of key) = None" "analyzeKey response (key, q) m0 = Inr m1"
  proof -
    from that have "m1 = obj_set (qNum_of key) (tally q a (init_entry q a)) m0"
      by (auto simp: analyzeKey_def Let_def split: if_splits)
    then show ?thesis by (simp add: map_of_obj_set_same)
  qed
  have g: "\<exists>t. qa_type qa = Some t
             \<and> qa_type (tally q a qa) =
                 Some (if q \<noteq> [] \<and> starPattern_test (trim a) then StarRating
                       else if includes_char a CHR '','' then Checkbox
                       else t)"
    if r: "analyzeResponses rs [] = Inr m" and l: "map_of m n = Some qa"
  proof -
    from l have mem: "(n, qa) \<in> set m" by (rule map_of_SomeD)
    have e0: "qa_type e \<noteq> None" if "(k, e) \<in> set ([]::qmap)" for k e
      using that by simp
    have "qa_type qa \<noteq> None"
    proof (rule analyzeResponses_preserves[where A = "\<lambda>_. True" and P = "\<lambda>e. qa_type e \<noteq> None",
          OF _ _ _ e0 r mem])
      show "qa_type (tally q' b x) \<noteq> None" if "True" "qa_type x \<noteq> None" for q' b x
        using that by (simp add: qa_type_tally)
      show "qa_type (tally q' b (init_entry q' b)) \<noteq> None" if "True" for q' b
        by (simp add: qa_type_tally)
      show "True" if "r \<in> set rs" "(k, v) \<in> set r" "startsWith k ''Answer''" for r k v ..
    qed
    then obtain t where t: "qa_type qa = Some t" by auto
    then show ?thesis by (simp add: qa_type_tally star_test_iff)
  qed
  from i f k g show ?thesis by blast
qed

text \<open>
  An entry established as \<open>MCQ\<close> by its first answer, then a label, a star answer and a
  checkbox answer.
\<close>

theorem category_overwrite_rules_witness:
  "analyzeResponses [ [(''Question 1'', ''Mood?''), (''Answer 1'', ''Satisfied'')] ] []
     = Inr [(''1'', \<lparr>question = ''Mood?'', responses = [(''Satisfied'', Num 1)],
                     responseCount = 1, qa_type = Some MCQ\<rparr>)]
   \<and> qa_type (tally ''Mood?'' ''Neutral''
         \<lparr>question = ''Mood?'', responses = [(''Satisfied'', Num 1)],
          responseCount = 1, qa_type = Some MCQ\<rparr>) = Some MCQ
   \<and> qa_type (tally ''Mood?'' ''4 stars''
         \<lparr>question = ''Mood?'', responses = [(''Satisfied'', Num 1)],
          responseCount = 1, qa_type = Some MCQ\<rparr>) = Some StarRating
   \<and> qa_type (tally ''Mood?'' ''Gym, Lunch''
         \<lparr>question = ''Mood?'', responses = [(''Satisfied'', Num 1)],
          responseCount = 1, qa_type = Some MCQ\<rparr>) = Some Checkbox
   \<and> map_of [(''1'', \<lparr>question = ''Mood?'', responses = [(''Satisfied'', Num 1)],
                     responseCount = 1, qa_type = Some MCQ\<rparr>)] ''1''
      = Some (tally ''Mood?'' ''Satisfied'' (init_entry ''Mood?'' ''Satisfied''))"
proof -
  let ?QA = "\<lparr>question = ''Mood?'', responses = [(''Satisfied'', Num 1)],
          responseCount = 1, qa_type = Some MCQ\<rparr>"
  let ?r = "[(''Question 1'', ''Mood?''), (''Answer 1'', ''Satisfied'')]"
  have h1: "analyzeResponses [?r] [] = Inr [(''1'', ?QA)]" by code_simp
  have h2: "map_of [(''1'', ?QA)] ''1'' = Some ?QA" by simp
  have s1: "\<not> starPattern_test (trim ''Neutral'')" "\<not> includes_char ''Neutral'' CHR '',''"
    by code_simp+
  have s2: "starPattern_test (trim ''4 stars'')" by code_simp
  have s3: "\<not> starPattern_test (trim ''Gym, Lunch'')" "includes_char ''Gym, Lunch'' CHR '',''"
    by code_simp+
  from category_overwrite_rules [of "''Mood?''" "''Neutral''" _ _ _ _ "[?r]" "[(''1'', ?QA)]" "''1''" ?QA]
    h1 h2
  have "\<exists>t. qa_type ?QA = Some t
             \<and> qa_type (tally ''Mood?'' ''Neutral'' ?QA) =
                 Some (if ''Mood?'' \<noteq> [] \<and> starPattern_test (trim ''Neutral'') then StarRating
                       else if includes_char ''Neutral'' CHR '','' then Checkbox
                       else t)" by blast
  with s1 have a: "qa_type (tally ''Mood?'' ''Neutral'' ?QA) = Some MCQ" by simp
  from category_overwrite_rules [of "''Mood?''" "''4 stars''" _ _ _ _ "[?r]" "[(''1'', ?QA)]" "''1''" ?QA]
    h1 h2
  have "\<exists>t. qa_type ?QA = Some t
             \<and> qa_type (tally ''Mood?'' ''4 stars'' ?QA) =
                 Some (if ''Mood?'' \<noteq> [] \<and> starPattern_test (trim ''4 stars'') then StarRating
                       else if includes_char ''4 stars'' CHR '','' then Checkbox
                       else t)" by blast
  with s2 have b: "qa_type (tally ''Mood?'' ''4 stars'' ?QA) = Some StarRating" by simp
  from category_overwrite_rules [of "''Mood?''" "''Gym, Lunch''" _ _ _ _ "[?r]" "[(''1'', ?QA)]" "''1''" ?QA]
    h1 h2
  have "\<exists>t. qa_type ?QA = Some t
             \<and> qa_type (tally ''Mood?'' ''Gym, Lunch'' ?QA) =
                 Some (if ''Mood?'' \<noteq> [] \<and> starPattern_test (trim ''Gym, Lunch'') then StarRating
                       else if includes_char ''Gym, Lunch'' CHR '','' then Checkbox
                       else t)" by blast
  with s3 have c: "qa_type (tally ''Mood?'' ''Gym, Lunch'' ?QA) = Some Checkbox" by simp
  have k1: "startsWith ''Question 1'' ''Question''" by code_simp
  have k2: "map_of ?r (''Answer '' @ qNum_of ''Question 1'') = Some ''Satisfied''" by code_simp
  have k3: "map_of ([]::qmap) (qNum_of ''Question 1'') = None" by simp
  have k4: "analyzeKey ?r (''Question 1'', ''Mood?'') [] = Inr [(''1'', ?QA)]" by code_simp
  have k5: "qNum_of ''Question 1'' = ''1''" by code_simp
  from category_overwrite_rules [of "''Mood?''" "''Satisfied''" "''Question 1''" ?r "[]" "[(''1'', ?QA)]"]
    k1 k2 k3 k4
  have "map_of [(''1'', ?QA)] (qNum_of ''Question 1'')
      = Some (tally ''Mood?'' ''Satisfied'' (init_entry ''Mood?'' ''Satisfied''))" by blast
  then have d: "map_of [(''1'', ?QA)] ''1''
      = Some (tally ''Mood?'' ''Satisfied'' (init_entry ''Mood?'' ''Satisfied''))"
    by (simp only: k5)
  from h1 a b c d show ?thesis by blast
qed

end
